theory Spec2Isabelle
  imports Complex_Main "HOL-Library.Log_Nat" "HOL-Library.AList" "HOL-Library.Multiset"
begin

section \<open>JavaScript numbers\<close>

text \<open>
  Every amount in the cash-closure component is a JavaScript \<^verbatim>\<open>number\<close>: an IEEE-754
  binary64 value. A finite non-zero double is the rational it denotes, \<open>Fin 0\<close> is \<open>+0\<close>
  and \<open>NegZero\<close> is \<open>-0\<close>. The result of an arithmetic operation is the exact result
  rounded to the nearest double, ties to the even significand (\<open>round_double\<close>).
\<close>

datatype number = NaN | PosInf | NegInf | NegZero | Fin rat

definition pow2 :: "int \<Rightarrow> rat" where
  "pow2 k = (if 0 \<le> k then 2 ^ nat k else 1 / 2 ^ nat (- k))"

definition pow10 :: "int \<Rightarrow> rat" where
  "pow10 k = (if 0 \<le> k then 10 ^ nat k else 1 / 10 ^ nat (- k))"

text \<open>For \<open>r > 0\<close>, the exponent \<open>e\<close> with \<open>2^e \<le> r < 2^(e+1)\<close>.\<close>

definition floor_log2 :: "rat \<Rightarrow> int" where
  "floor_log2 r = (case quotient_of r of (p, q) \<Rightarrow>
     let d = bitlen p - bitlen q in if pow2 d \<le> r then d else d - 1)"

definition round_half_even :: "rat \<Rightarrow> int" where
  "round_half_even x = (let f = \<lfloor>x\<rfloor>; d = x - of_int f in
     if d < 1 / 2 then f else if 1 / 2 < d then f + 1 else if even f then f else f + 1)"

text \<open>
  Doubles have 53 significant bits, the least exponent of a normal double is \<open>-1022\<close>
  (below it the spacing stays \<open>2^-1074\<close>), and a result that rounds to \<open>2^1024\<close> or more
  is an infinity.
\<close>

definition round_double :: "rat \<Rightarrow> number" where
  "round_double r = (if r = 0 then Fin 0 else
     let a = \<bar>r\<bar>;
         e = max (floor_log2 a) (- 1022);
         n = round_half_even (a / pow2 (e - 52))
     in if 1024 \<le> e \<or> (e = 1023 \<and> n = 2 ^ 53) then (if r < 0 then NegInf else PosInf)
        else if n = 0 then (if r < 0 then NegZero else Fin 0)
        else Fin ((if r < 0 then - 1 else 1) * of_int n * pow2 (e - 52)))"

text \<open>The operator \<^verbatim>\<open>+\<close> on two numbers.\<close>

fun num_add :: "number \<Rightarrow> number \<Rightarrow> number" where
  "num_add NaN _ = NaN"
| "num_add _ NaN = NaN"
| "num_add PosInf NegInf = NaN"
| "num_add NegInf PosInf = NaN"
| "num_add PosInf _ = PosInf"
| "num_add _ PosInf = PosInf"
| "num_add NegInf _ = NegInf"
| "num_add _ NegInf = NegInf"
| "num_add NegZero y = y"
| "num_add x NegZero = x"
| "num_add (Fin a) (Fin b) = round_double (a + b)"

fun num_neg :: "number \<Rightarrow> number" where
  "num_neg NaN = NaN"
| "num_neg PosInf = NegInf"
| "num_neg NegInf = PosInf"
| "num_neg NegZero = Fin 0"
| "num_neg (Fin r) = (if r = 0 then NegZero else Fin (- r))"

text \<open>The operator \<^verbatim>\<open>-\<close>: \<open>x - y\<close> is \<open>x + (-y)\<close> in IEEE-754 arithmetic.\<close>

definition num_sub :: "number \<Rightarrow> number \<Rightarrow> number" where
  "num_sub x y = num_add x (num_neg y)"

text \<open>The operator \<^verbatim>\<open><\<close>: false when an operand is \<^verbatim>\<open>NaN\<close>; the two zeros are equal.\<close>

fun num_lt :: "number \<Rightarrow> number \<Rightarrow> bool" where
  "num_lt NaN _ = False"
| "num_lt _ NaN = False"
| "num_lt PosInf _ = False"
| "num_lt _ PosInf = True"
| "num_lt _ NegInf = False"
| "num_lt NegInf _ = True"
| "num_lt NegZero NegZero = False"
| "num_lt NegZero (Fin b) = (0 < b)"
| "num_lt (Fin a) NegZero = (a < 0)"
| "num_lt (Fin a) (Fin b) = (a < b)"

text \<open>\<^verbatim>\<open>ToBoolean\<close> on a number: \<^verbatim>\<open>NaN\<close>, \<open>+0\<close> and \<open>-0\<close> are falsy.\<close>

fun truthy :: "number \<Rightarrow> bool" where
  "truthy NaN = False"
| "truthy NegZero = False"
| "truthy (Fin r) = (r \<noteq> 0)"
| "truthy _ = True"

text \<open>The idiom \<^verbatim>\<open>x || 0\<close>.\<close>

definition or_zero :: "number \<Rightarrow> number" where
  "or_zero x = (if truthy x then x else Fin 0)"

subsection \<open>parseFloat\<close>

text \<open>
  \<^verbatim>\<open>parseFloat\<close> skips leading white space, reads the longest prefix that is a
  \<^verbatim>\<open>StrDecimalLiteral\<close> (a sign, then \<^verbatim>\<open>Infinity\<close> or digits with an optional
  fraction and an optional exponent) and ignores what follows; without such a prefix the
  result is \<^verbatim>\<open>NaN\<close>. It never throws. Strings are taken over ASCII.
\<close>

definition is_digit :: "char \<Rightarrow> bool" where
  "is_digit c = (c \<in> set ''0123456789'')"

definition is_white :: "char \<Rightarrow> bool" where
  "is_white c = (c \<in> set [CHR 0x09, CHR 0x0A, CHR 0x0B, CHR 0x0C, CHR 0x0D, CHR 0x20])"

definition digit_val :: "char \<Rightarrow> int" where
  "digit_val c = of_char c - 48"

definition digits_val :: "string \<Rightarrow> int" where
  "digits_val ds = foldl (\<lambda>n c. 10 * n + digit_val c) 0 ds"

text \<open>A sign in front of \<open>s\<close>: whether it is a minus, and the rest.\<close>

definition split_sign :: "string \<Rightarrow> bool \<times> string" where
  "split_sign s = (case s of [] \<Rightarrow> (False, s)
     | c # r \<Rightarrow> if c = CHR ''-'' then (True, r) else if c = CHR ''+'' then (False, r)
                else (False, s))"

text \<open>The value of an \<^verbatim>\<open>ExponentPart\<close> at the front of \<open>s\<close>, 0 when there is none.\<close>

definition exponent_part :: "string \<Rightarrow> int" where
  "exponent_part s = (case s of [] \<Rightarrow> 0
     | c # r \<Rightarrow>
         if c = CHR ''e'' \<or> c = CHR ''E'' then
           (case split_sign r of (neg, r') \<Rightarrow>
              let ds = takeWhile is_digit r' in
              if ds = [] then 0
              else if neg then - digits_val ds else digits_val ds)
         else 0)"

text \<open>
  The mathematical value of the longest \<^verbatim>\<open>StrUnsignedDecimalLiteral\<close> prefix other than
  \<^verbatim>\<open>Infinity\<close>: \<^verbatim>\<open>digits [. digits?] exp?\<close> or \<^verbatim>\<open>. digits exp?\<close>.
\<close>

definition unsigned_literal :: "string \<Rightarrow> rat option" where
  "unsigned_literal s =
     (let ip = takeWhile is_digit s; r1 = dropWhile is_digit s in
      if r1 \<noteq> [] \<and> hd r1 = CHR ''.'' then
        (let fp = takeWhile is_digit (tl r1); r2 = dropWhile is_digit (tl r1) in
         if ip = [] \<and> fp = [] then None
         else Some (of_int (digits_val (ip @ fp)) * pow10 (exponent_part r2 - int (length fp))))
      else if ip = [] then None
      else Some (of_int (digits_val ip) * pow10 (exponent_part r1)))"

definition parseFloat :: "string \<Rightarrow> number" where
  "parseFloat s = (case split_sign (dropWhile is_white s) of (neg, u) \<Rightarrow>
     if take 8 u = ''Infinity'' then (if neg then NegInf else PosInf)
     else (case unsigned_literal u of
             None \<Rightarrow> NaN
           | Some v \<Rightarrow> if neg then num_neg (round_double v) else round_double v))"

section \<open>Data model\<close>

text \<open>
  The fields of the shared schema that the cash-closure component reads. Monetary columns
  reach the component as decimal strings. A \<open>date\<close> is absent, an invalid date, or a time
  value in milliseconds since the epoch.
\<close>

datatype date_value = NoDate | InvalidDate | TimeValue int

record Invoice =
  date :: date_value
  status :: string
  paid :: bool
  paymentMethod :: string
  employeeId :: string
  subtotal :: string
  tax :: string
  total :: string

record PaymentMethod =
  code :: string
  name :: string

record Employee =
  id :: string
  name :: string

text \<open>The values of a \<^verbatim>\<open>PaymentSummary\<close> and of an \<^verbatim>\<open>EmployeeStats\<close> object.\<close>

record PaymentEntry =
  quantity :: nat
  total :: number

record EmployeeEntry =
  sales :: nat
  total :: number

subsection \<open>Objects used as dictionaries\<close>

text \<open>
  Both objects are created by the literal \<^verbatim>\<open>{}\<close>. Such an object has its own properties,
  kept in the order in which they were created, and a prototype, which is
  \<^verbatim>\<open>Object.prototype\<close> at first. The name \<^verbatim>\<open>__proto__\<close> is an accessor of
  \<^verbatim>\<open>Object.prototype\<close>: assigning an object to \<^verbatim>\<open>obj['__proto__']\<close> creates no property
  but makes that object the prototype of \<^verbatim>\<open>obj\<close>, and reading it gives the prototype.
  In \<open>proto\<close>, \<open>None\<close> stands for \<^verbatim>\<open>Object.prototype\<close> and \<open>Some x\<close> for an entry \<open>x\<close>
  that was assigned to \<^verbatim>\<open>__proto__\<close>.
\<close>

record 'v js_object =
  own :: "(string \<times> 'v) list"
  proto :: "'v option"

definition empty_object :: "'v js_object" where
  "empty_object = \<lparr>own = [], proto = None\<rparr>"

text \<open>
  \<^verbatim>\<open>obj[k] = v\<close>: an own property \<open>k\<close> gets the value in place; otherwise
  \<^verbatim>\<open>__proto__\<close> sets the prototype, and any other name becomes a new own property (the
  members of \<^verbatim>\<open>Object.prototype\<close> and of an entry are writable data properties, which do
  not stand in the way).
\<close>

definition obj_assign :: "string \<Rightarrow> 'v \<Rightarrow> 'v js_object \<Rightarrow> 'v js_object" where
  "obj_assign k v obj =
     (if k = ''__proto__'' \<and> map_of (own obj) k = None then obj\<lparr>proto := Some v\<rparr>
      else obj\<lparr>own := AList.update k v (own obj)\<rparr>)"

text \<open>
  The entry that \<^verbatim>\<open>obj[k]\<close> evaluates to, if it evaluates to one: the own property
  \<open>k\<close>, or for \<^verbatim>\<open>__proto__\<close> the entry that was made the prototype. \<open>None\<close> covers
  \<^verbatim>\<open>undefined\<close> and the values inherited through the prototype, which are not entries.
\<close>

definition obj_get :: "'v js_object \<Rightarrow> string \<Rightarrow> 'v option" where
  "obj_get obj k =
     (case map_of (own obj) k of
        Some e \<Rightarrow> Some e
      | None \<Rightarrow> if k = ''__proto__'' then proto obj else None)"

text \<open>A change \<open>f\<close> made in place to the entry that \<^verbatim>\<open>obj[k]\<close> evaluates to.\<close>

definition obj_mutate :: "string \<Rightarrow> ('v \<Rightarrow> 'v) \<Rightarrow> 'v js_object \<Rightarrow> 'v js_object" where
  "obj_mutate k f obj =
     (case map_of (own obj) k of
        Some e \<Rightarrow> obj\<lparr>own := AList.update k (f e) (own obj)\<rparr>
      | None \<Rightarrow> if k = ''__proto__'' then obj\<lparr>proto := map_option f (proto obj)\<rparr> else obj)"

text \<open>
  \<^verbatim>\<open>Object.entries(obj)\<close>: the own properties only, those whose name is an array index
  (the canonical decimal numeral of an integer from 0 to \<open>2^32 - 2\<close>) first, in ascending
  order, then the others in the order of their creation.
\<close>

definition array_index :: "string \<Rightarrow> bool" where
  "array_index k =
     (k \<noteq> [] \<and> list_all is_digit k \<and> (k = ''0'' \<or> hd k \<noteq> CHR ''0'') \<and>
      digits_val k \<le> 4294967294)"

definition object_entries :: "'v js_object \<Rightarrow> (string \<times> 'v) list" where
  "object_entries obj =
     sort_key (\<lambda>p. digits_val (fst p)) (filter (\<lambda>p. array_index (fst p)) (own obj))
       @ filter (\<lambda>p. \<not> array_index (fst p)) (own obj)"

text \<open>
  The names that an object inherits from \<^verbatim>\<open>Object.prototype\<close>. Read on an object
  that has no such own property, each of them gives a function or, for \<^verbatim>\<open>__proto__\<close>,
  the prototype: a value that is not falsy.
\<close>

definition object_prototype_names :: "string list" where
  "object_prototype_names =
     [''constructor'', ''__defineGetter__'', ''__defineSetter__'', ''hasOwnProperty'',
      ''__lookupGetter__'', ''__lookupSetter__'', ''isPrototypeOf'', ''propertyIsEnumerable'',
      ''toString'', ''valueOf'', ''__proto__'', ''toLocaleString'']"

text \<open>
  The payment summary is assigned to under arbitrary names, so its prototype can change.
  The employee statistics are only assigned to under names that read as falsy, which
  excludes \<^verbatim>\<open>__proto__\<close>: their prototype stays \<^verbatim>\<open>Object.prototype\<close>, and the object
  is the list of its own properties.
\<close>

type_synonym PaymentSummary = "PaymentEntry js_object"

type_synonym EmployeeStats = "(string \<times> EmployeeEntry) list"

record DailySummary =
  totalInvoices :: nat
  deliveredInvoices :: nat
  pendingInvoices :: nat
  totalRevenue :: number
  totalSubtotal :: number
  totalTax :: number
  totalItems :: nat
  urgentOrders :: nat
  paymentSummary :: PaymentSummary
  employeeStats :: EmployeeStats

section \<open>Selecting the invoices of a date\<close>

text \<open>
  \<^verbatim>\<open>new Date(invoice.date).toISOString().split('T')[0]\<close>: the calendar date of a time
  value in UTC, as \<^verbatim>\<open>YYYY-MM-DD\<close> (years outside 0..9999 take a sign and six digits).
  \<open>civil_from_days\<close> turns a day number (days since 1970-01-01) into year, month and day
  of the proleptic Gregorian calendar.
\<close>

definition msPerDay :: int where
  "msPerDay = 86400000"

definition civil_from_days :: "int \<Rightarrow> int \<times> int \<times> int" where
  "civil_from_days z0 =
     (let z = z0 + 719468;
          era = z div 146097;
          doe = z - era * 146097;
          yoe = (doe - doe div 1460 + doe div 36524 - doe div 146096) div 365;
          doy = doe - (365 * yoe + yoe div 4 - yoe div 100);
          mp = (5 * doy + 2) div 153;
          d = doy - (153 * mp + 2) div 5 + 1;
          m = (if mp < 10 then mp + 3 else mp - 9);
          y = yoe + era * 400 + (if m \<le> 2 then 1 else 0)
      in (y, m, d))"

definition digit_char :: "int \<Rightarrow> char" where
  "digit_char d = ''0123456789'' ! nat d"

text \<open>The last \<open>w\<close> decimal digits of \<open>n \<ge> 0\<close>, zero-padded.\<close>

definition pad :: "nat \<Rightarrow> int \<Rightarrow> string" where
  "pad w n = map (\<lambda>k. digit_char ((n div 10 ^ k) mod 10)) (rev [0..<w])"

definition iso_year :: "int \<Rightarrow> string" where
  "iso_year y = (if 0 \<le> y \<and> y \<le> 9999 then pad 4 y
     else (if y < 0 then ''-'' else ''+'') @ pad 6 \<bar>y\<bar>)"

definition toISODate :: "int \<Rightarrow> string" where
  "toISODate t = (case civil_from_days (t div msPerDay) of (y, m, d) \<Rightarrow>
     iso_year y @ ''-'' @ pad 2 m @ ''-'' @ pad 2 d)"

datatype js_error = RangeError

text \<open>
  The callback of \<^verbatim>\<open>data.filter\<close> in the invoices query: an invoice without a date is
  dropped, \<^verbatim>\<open>toISOString\<close> throws a \<^verbatim>\<open>RangeError\<close> on an invalid date, and otherwise the
  invoice is kept when its UTC date string is the selected date.
\<close>

definition invoice_on_date :: "string \<Rightarrow> Invoice \<Rightarrow> js_error + bool" where
  "invoice_on_date selectedDate invoice =
     (case date invoice of
        NoDate \<Rightarrow> Inr False
      | InvalidDate \<Rightarrow> Inl RangeError
      | TimeValue t \<Rightarrow> Inr (toISODate t = selectedDate))"

fun filter_by_date :: "string \<Rightarrow> Invoice list \<Rightarrow> js_error + Invoice list" where
  "filter_by_date selectedDate [] = Inr []"
| "filter_by_date selectedDate (invoice # data) =
     (case invoice_on_date selectedDate invoice of
        Inl e \<Rightarrow> Inl e
      | Inr keep \<Rightarrow>
          (case filter_by_date selectedDate data of
             Inl e \<Rightarrow> Inl e
           | Inr kept \<Rightarrow> Inr (if keep then invoice # kept else kept)))"

text \<open>
  The calendar date of a time value on the wall clock of a zone that is \<open>offset\<close> minutes
  ahead of UTC (\<open>- 240\<close> for UTC-4): the notion of local date the specification uses.
\<close>

definition local_date :: "int \<Rightarrow> int \<Rightarrow> string" where
  "local_date offset t = toISODate (t + offset * 60000)"

section \<open>The daily summary\<close>

definition delivered_invoices :: "Invoice list \<Rightarrow> Invoice list" where
  "delivered_invoices invoices =
     filter (\<lambda>invoice. status invoice = ''delivered'' \<and> paid invoice) invoices"

definition pending_invoices :: "Invoice list \<Rightarrow> Invoice list" where
  "pending_invoices invoices =
     filter (\<lambda>invoice. \<not> paid invoice \<and> status invoice \<noteq> ''cancelled'') invoices"

definition zero_payment :: PaymentEntry where
  "zero_payment = \<lparr>quantity = 0, total = Fin 0\<rparr>"

text \<open>
  \<^verbatim>\<open>paymentSummary[method.name] = { quantity: 0, total: 0 }\<close> for each payment method,
  then the same for \<open>Pendiente\<close>.
\<close>

definition seed_summary :: "PaymentMethod list \<Rightarrow> PaymentSummary" where
  "seed_summary paymentMethods =
     obj_assign ''Pendiente'' zero_payment
       (foldl (\<lambda>ps method. obj_assign (PaymentMethod.name method) zero_payment ps) empty_object
          paymentMethods)"

text \<open>
  \<^verbatim>\<open>paymentMethods.find(m => m.code === invoice.paymentMethod)?.name || 'Pendiente'\<close>:
  the name of the first method with the invoice's code; no such method, or an empty
  name, gives \<open>Pendiente\<close>.
\<close>

definition method_name :: "PaymentMethod list \<Rightarrow> Invoice \<Rightarrow> string" where
  "method_name paymentMethods invoice =
     (case find (\<lambda>m. code m = paymentMethod invoice) paymentMethods of
        None \<Rightarrow> ''Pendiente''
      | Some m \<Rightarrow> if PaymentMethod.name m = [] then ''Pendiente'' else PaymentMethod.name m)"

text \<open>
  The body of the loop over the delivered invoices that fills the payment summary. The
  method name is always a name under which the summary was seeded, so
  \<^verbatim>\<open>paymentSummary[methodName]\<close> is an entry, which is changed in place; in the other
  branch the summary stays as it is.
\<close>

definition add_payment :: "PaymentMethod list \<Rightarrow> PaymentSummary \<Rightarrow> Invoice \<Rightarrow> PaymentSummary" where
  "add_payment paymentMethods ps invoice =
     (let methodName = method_name paymentMethods invoice in
      case obj_get ps methodName of
        None \<Rightarrow> ps
      | Some found \<Rightarrow>
          obj_mutate methodName
            (\<lambda>e. \<lparr>quantity = quantity e + 1,
                  total = num_add (PaymentEntry.total e) (parseFloat (Invoice.total invoice))\<rparr>) ps)"

definition employee_name :: "Employee list \<Rightarrow> Invoice \<Rightarrow> string" where
  "employee_name employees invoice =
     (case find (\<lambda>e. Employee.id e = employeeId invoice) employees of
        None \<Rightarrow> ''Desconocido''
      | Some e \<Rightarrow> if Employee.name e = [] then ''Desconocido'' else Employee.name e)"

text \<open>
  The body of the loop that fills the employee statistics. An own property is an entry,
  which is changed in place. Without one, \<^verbatim>\<open>employeeStats[employeeName]\<close> is
  \<^verbatim>\<open>undefined\<close> (or a \<^verbatim>\<open>NaN\<close> left on the prototype), and a new entry is created, unless
  the name is inherited from \<^verbatim>\<open>Object.prototype\<close>: then the value read is not falsy,
  no entry is created, the two updates are made on the inherited value, and the
  statistics stay as they are.
\<close>

definition add_sale :: "Employee list \<Rightarrow> EmployeeStats \<Rightarrow> Invoice \<Rightarrow> EmployeeStats" where
  "add_sale employees es invoice =
     (let employeeName = employee_name employees invoice;
          created =
            (if map_of es employeeName = None \<and> employeeName \<notin> set object_prototype_names
             then AList.update employeeName \<lparr>sales = 0, total = Fin 0\<rparr> es
             else es)
      in case map_of created employeeName of
           None \<Rightarrow> created
         | Some e \<Rightarrow>
             AList.update employeeName
               \<lparr>sales = sales e + 1,
                total = num_add (EmployeeEntry.total e) (parseFloat (Invoice.total invoice))\<rparr>
               created)"

text \<open>\<^verbatim>\<open>list.reduce((sum, inv) => sum + parseFloat(field(inv)), 0)\<close>\<close>

definition sum_field :: "(Invoice \<Rightarrow> string) \<Rightarrow> Invoice list \<Rightarrow> number" where
  "sum_field field invs = foldl (\<lambda>sum inv. num_add sum (parseFloat (field inv))) (Fin 0) invs"

definition dailySummary :: "Invoice list \<Rightarrow> PaymentMethod list \<Rightarrow> Employee list \<Rightarrow> DailySummary" where
  "dailySummary invoices paymentMethods employees =
     (let delivered = delivered_invoices invoices;
          pending = pending_invoices invoices
      in \<lparr>totalInvoices = length invoices,
          deliveredInvoices = length delivered,
          pendingInvoices = length pending,
          totalRevenue = sum_field Invoice.total delivered,
          totalSubtotal = sum_field subtotal delivered,
          totalTax = sum_field tax delivered,
          totalItems = length invoices,
          urgentOrders = 0,
          paymentSummary =
            foldl (add_payment paymentMethods) (seed_summary paymentMethods) delivered,
          employeeStats = foldl (add_sale employees) [] delivered\<rparr>)"

section \<open>System cash, variance and the create request\<close>

definition systemCash :: "string \<Rightarrow> PaymentSummary \<Rightarrow> PaymentMethod list \<Rightarrow> number" where
  "systemCash openingCash summary paymentMethods =
     (if length paymentMethods = 0 then Fin 0
      else case find (\<lambda>m. code m = ''cash'') paymentMethods of
             None \<Rightarrow> Fin 0
           | Some cashMethod \<Rightarrow>
               num_add (parseFloat openingCash)
                 (case obj_get summary (PaymentMethod.name cashMethod) of
                    None \<Rightarrow> Fin 0
                  | Some cashPayments \<Rightarrow> or_zero (PaymentEntry.total cashPayments)))"

definition variance :: "string \<Rightarrow> number \<Rightarrow> number" where
  "variance countedCash system = num_sub (or_zero (parseFloat countedCash)) system"

text \<open>The argument of the create mutation, and what pressing the create button does.\<close>

record ClosureRequest =
  closingDate :: string
  openingCash :: number
  countedCash :: number
  notes' :: "string option"

datatype create_outcome = ValidationError | Mutate ClosureRequest

definition handleCreateCashClosure :: "string \<Rightarrow> string \<Rightarrow> string \<Rightarrow> string \<Rightarrow> create_outcome" where
  "handleCreateCashClosure selectedDate opening counted note =
     (if counted = [] \<or> num_lt (parseFloat counted) (Fin 0) then ValidationError
      else Mutate \<lparr>closingDate = selectedDate,
                   openingCash = or_zero (parseFloat opening),
                   countedCash = parseFloat counted,
                   notes' = (if note = [] then None else Some note)\<rparr>)"

section \<open>The memoised summary\<close>







section \<open>The store of cash closures\<close>






section \<open>Notions used to state the properties\<close>

text \<open>
  The invoices that are neither delivered nor pending: paid but not delivered, or unpaid
  and cancelled.
\<close>

definition other_invoices :: "Invoice list \<Rightarrow> Invoice list" where
  "other_invoices invoices =
     filter (\<lambda>invoice. (paid invoice \<and> status invoice \<noteq> ''delivered'') \<or>
                       (\<not> paid invoice \<and> status invoice = ''cancelled'')) invoices"

text \<open>Whether an invoice has a date whose UTC calendar date is the selected date.\<close>

definition on_utc_date :: "string \<Rightarrow> Invoice \<Rightarrow> bool" where
  "on_utc_date selectedDate invoice =
     (case date invoice of TimeValue t \<Rightarrow> toISODate t = selectedDate | _ \<Rightarrow> False)"

text \<open>
  The delivered invoices that are counted under the key \<open>k\<close> of the payment summary, and
  under the key \<open>k\<close> of the employee statistics.
\<close>

definition payment_bucket :: "PaymentMethod list \<Rightarrow> string \<Rightarrow> Invoice list \<Rightarrow> Invoice list" where
  "payment_bucket pms k invs = filter (\<lambda>iv. method_name pms iv = k) invs"

definition employee_bucket :: "Employee list \<Rightarrow> string \<Rightarrow> Invoice list \<Rightarrow> Invoice list" where
  "employee_bucket emps k invs = filter (\<lambda>iv. employee_name emps iv = k) invs"

text \<open>
  An object without an own property \<^verbatim>\<open>__proto__\<close>, and a payment summary that has an
  entry under every name it is seeded with.
\<close>

definition proto_free :: "'v js_object \<Rightarrow> bool" where
  "proto_free obj = (map_of (own obj) ''__proto__'' = None)"

definition seeded :: "PaymentMethod list \<Rightarrow> PaymentSummary \<Rightarrow> bool" where
  "seeded pms ps =
     (\<forall>k \<in> insert ''Pendiente'' (PaymentMethod.name ` set pms). obj_get ps k \<noteq> None)"

text \<open>\<^verbatim>\<open>sum(paymentSummary[*].quantity)\<close>, over the entries of the object.\<close>

definition total_quantity :: "PaymentSummary \<Rightarrow> nat" where
  "total_quantity ps = sum_list (map (\<lambda>p. quantity (snd p)) (object_entries ps))"

text \<open>
  \<^verbatim>\<open>sum(paymentSummary[*].total)\<close>, read in two ways: the totals of the entries added
  as numbers in the order of the entries, and the exact sum of the rationals the totals
  denote (\<open>None\<close> when a total is not finite).
\<close>

definition summary_totals :: "PaymentSummary \<Rightarrow> number list" where
  "summary_totals ps = map (\<lambda>p. PaymentEntry.total (snd p)) (object_entries ps)"

definition float_sum :: "number list \<Rightarrow> number" where
  "float_sum xs = foldl num_add (Fin 0) xs"

definition fin_val :: "number \<Rightarrow> rat option" where
  "fin_val x = (case x of Fin r \<Rightarrow> Some r | NegZero \<Rightarrow> Some 0 | _ \<Rightarrow> None)"

definition rational_sum :: "number list \<Rightarrow> rat option" where
  "rational_sum xs =
     (if list_all (\<lambda>x. fin_val x \<noteq> None) xs then Some (\<Sum>x\<leftarrow>xs. the (fin_val x)) else None)"

text \<open>
  The whole number a double denotes, when it denotes one, and lists of doubles that denote
  whole numbers whose absolute values add up to at most \<open>2^53\<close>: adding such doubles up
  from 0 in any grouping never rounds.
\<close>

definition int_amount :: "number \<Rightarrow> int option" where
  "int_amount x = (case x of
       Fin r \<Rightarrow> if of_int \<lfloor>r\<rfloor> = r then Some \<lfloor>r\<rfloor> else None
     | NegZero \<Rightarrow> Some 0
     | _ \<Rightarrow> None)"

definition int_of :: "number \<Rightarrow> int" where
  "int_of x = (case int_amount x of Some z \<Rightarrow> z | None \<Rightarrow> 0)"

definition whole_numbers :: "number list \<Rightarrow> bool" where
  "whole_numbers xs =
     ((\<forall>x \<in> set xs. int_amount x \<noteq> None) \<and> (\<Sum>x\<leftarrow>xs. \<bar>int_of x\<bar>) \<le> 2 ^ 53)"

text \<open>The parsed amounts of a field of the invoices, and the exact sum of whole amounts.\<close>

definition amounts :: "(Invoice \<Rightarrow> string) \<Rightarrow> Invoice list \<Rightarrow> number list" where
  "amounts field invs = map (\<lambda>iv. parseFloat (field iv)) invs"

definition exact_sum :: "number list \<Rightarrow> int" where
  "exact_sum xs = (\<Sum>x\<leftarrow>xs. int_of x)"

text \<open>Doubles that are finite whole numbers, and the sum of the absolute values of a list.\<close>

definition all_whole :: "number list \<Rightarrow> bool" where
  "all_whole xs = (\<forall>x \<in> set xs. \<exists>z. x = Fin (of_int z))"

definition abs_sum :: "number list \<Rightarrow> int" where
  "abs_sum xs = (\<Sum>x\<leftarrow>xs. \<bar>int_of x\<bar>)"

section \<open>Example data\<close>

text \<open>An invoice of the employee \<open>e1\<close>: status, paid, payment-method code and total.\<close>

definition example_invoice :: "string \<Rightarrow> bool \<Rightarrow> string \<Rightarrow> string \<Rightarrow> Invoice" where
  "example_invoice st pd method amount =
     \<lparr>date = NoDate, status = st, paid = pd, paymentMethod = method, employeeId = ''e1'',
      subtotal = amount, tax = ''0.00'', total = amount\<rparr>"

definition dated_invoice :: "int \<Rightarrow> Invoice" where
  "dated_invoice t = (example_invoice ''delivered'' True ''cash'' ''25.00'')\<lparr>date := TimeValue t\<rparr>"

definition cash_method :: PaymentMethod where
  "cash_method = \<lparr>code = ''cash'', name = ''Efectivo''\<rparr>"

definition card_method :: PaymentMethod where
  "card_method = \<lparr>code = ''card'', name = ''Tarjeta''\<rparr>"

text \<open>A payment method and an employee whose names are members of \<^verbatim>\<open>Object.prototype\<close>.\<close>

definition proto_method :: PaymentMethod where
  "proto_method = \<lparr>code = ''other'', name = ''__proto__''\<rparr>"

definition constructor_employee :: Employee where
  "constructor_employee = \<lparr>id = ''e1'', name = ''constructor''\<rparr>"

definition ana :: Employee where
  "ana = \<lparr>id = ''e1'', name = ''Ana''\<rparr>"

text \<open>Delivered invoices of 25.00 in cash, 10.00 by card and 5.00 by an unknown method.\<close>

definition whole_invoices :: "Invoice list" where
  "whole_invoices =
     [example_invoice ''delivered'' True ''cash'' ''25.00'',
      example_invoice ''delivered'' True ''card'' ''10.00'',
      example_invoice ''delivered'' True ''xyz'' ''5.00'']"

text \<open>Delivered invoices of 0.10 in cash and of 0.20 and 0.30 by card.\<close>

definition drift_invoices :: "Invoice list" where
  "drift_invoices =
     [example_invoice ''delivered'' True ''cash'' ''0.10'',
      example_invoice ''delivered'' True ''card'' ''0.20'',
      example_invoice ''delivered'' True ''card'' ''0.30'']"

text \<open>Delivered cash invoices of 0.10 and 0.20, and of 9007199254740992.00 and 1.00.\<close>

definition cent_invoices :: "Invoice list" where
  "cent_invoices =
     [example_invoice ''delivered'' True ''cash'' ''0.10'',
      example_invoice ''delivered'' True ''cash'' ''0.20'']"

definition large_invoices :: "Invoice list" where
  "large_invoices =
     [example_invoice ''delivered'' True ''cash'' ''9007199254740992.00'',
      example_invoice ''delivered'' True ''cash'' ''1.00'']"


section \<open>Objects\<close>

lemma sum_update_present:
  fixes f :: "'v \<Rightarrow> 'a::comm_monoid_add"
  shows "map_of ps k = Some e \<Longrightarrow>
    sum_list (map (\<lambda>p. f (snd p)) (AList.update k e' ps)) + f e
      = sum_list (map (\<lambda>p. f (snd p)) ps) + f e'"
  by (induction ps) (auto simp: ac_simps split: if_splits)

lemma set_update_cases:
  "p \<in> set (AList.update k v al) \<Longrightarrow> p = (k, v) \<or> p \<in> set al"
  by (induction al) (auto split: if_splits)

lemma obj_get_empty: "obj_get empty_object k = None"
  by (simp add: obj_get_def empty_object_def)

lemma obj_get_assign:
  "obj_get (obj_assign k v obj) k' = (if k' = k then Some v else obj_get obj k')"
  by (auto simp: obj_get_def obj_assign_def update_conv' split: option.splits)

lemma obj_get_mutate:
  "obj_get obj k = Some e \<Longrightarrow>
     obj_get (obj_mutate k f obj) k' = (if k' = k then Some (f e) else obj_get obj k')"
  by (auto simp: obj_get_def obj_mutate_def update_conv' split: option.splits if_splits)

lemma obj_get_own:
  "proto_free obj \<Longrightarrow> k \<noteq> ''__proto__'' \<Longrightarrow> obj_get obj k = map_of (own obj) k"
  by (simp add: obj_get_def split: option.splits)

lemma own_assign_cases:
  "p \<in> set (own (obj_assign k v obj)) \<Longrightarrow> p = (k, v) \<or> p \<in> set (own obj)"
  by (auto simp: obj_assign_def dest: set_update_cases split: if_splits)

lemma proto_free_empty: "proto_free empty_object"
  by (simp add: proto_free_def empty_object_def)

lemma proto_free_assign: "proto_free obj \<Longrightarrow> proto_free (obj_assign k v obj)"
  by (auto simp: proto_free_def obj_assign_def update_conv')

lemma proto_free_mutate: "proto_free obj \<Longrightarrow> proto_free (obj_mutate k f obj)"
  by (auto simp: proto_free_def obj_mutate_def update_conv' split: option.splits)

lemma own_mutate:
  "proto_free obj \<Longrightarrow>
     own (obj_mutate k f obj) =
       (case map_of (own obj) k of Some e \<Rightarrow> AList.update k (f e) (own obj) | None \<Rightarrow> own obj)"
  by (auto simp: proto_free_def obj_mutate_def split: option.splits)

text \<open>A sum over the entries of an object does not depend on their order.\<close>

lemma sum_list_sort_key:
  fixes f :: "'b \<Rightarrow> 'a::comm_monoid_add"
  shows "sum_list (map f (sort_key g xs)) = sum_list (map f xs)"
proof -
  have "mset (map f (sort_key g xs)) = mset (map f xs)"
    by simp
  then show ?thesis
    by (metis sum_mset_sum_list)
qed

lemma sum_list_partition:
  fixes f :: "'b \<Rightarrow> 'a::comm_monoid_add"
  shows "sum_list (map f (filter P xs)) + sum_list (map f (filter (\<lambda>x. \<not> P x) xs))
     = sum_list (map f xs)"
  by (induction xs) (simp_all add: ac_simps)

lemma sum_object_entries:
  fixes f :: "string \<times> 'v \<Rightarrow> 'a::comm_monoid_add"
  shows "sum_list (map f (object_entries obj)) = sum_list (map f (own obj))"
  by (simp add: object_entries_def sum_list_sort_key sum_list_partition)

lemma set_object_entries: "set (object_entries obj) = set (own obj)"
  by (auto simp: object_entries_def)

section \<open>The names of the payment summary\<close>

lemma obj_get_foldl_assign:
  "obj_get (foldl (\<lambda>ps m. obj_assign (g m) v ps) acc ms) k
     = (if k \<in> g ` set ms then Some v else obj_get acc k)"
  by (induction ms arbitrary: acc) (auto simp: obj_get_assign)

lemma obj_get_seed_summary:
  "obj_get (seed_summary pms) k =
     (if k \<in> insert ''Pendiente'' (PaymentMethod.name ` set pms) then Some zero_payment else None)"
  by (auto simp: seed_summary_def obj_get_assign obj_get_foldl_assign obj_get_empty)

lemma seeded_seed_summary: "seeded pms (seed_summary pms)"
  by (simp add: seeded_def obj_get_seed_summary)

lemma proto_free_foldl_assign:
  "proto_free acc \<Longrightarrow> proto_free (foldl (\<lambda>ps m. obj_assign (g m) v ps) acc ms)"
  by (induction ms arbitrary: acc) (simp_all add: proto_free_assign)

lemma proto_free_seed_summary: "proto_free (seed_summary pms)"
  by (simp add: seed_summary_def proto_free_assign proto_free_foldl_assign proto_free_empty)

lemma own_foldl_assign:
  "p \<in> set (own (foldl (\<lambda>ps m. obj_assign (g m) v ps) acc ms)) \<Longrightarrow>
     snd p = v \<or> p \<in> set (own acc)"
proof (induction ms arbitrary: acc)
  case Nil
  then show ?case by simp
next
  case (Cons m ms)
  from Cons.IH [of "obj_assign (g m) v acc"] Cons.prems show ?case
    by (auto dest: own_assign_cases)
qed

lemma seed_entries_zero:
  "p \<in> set (own (seed_summary pms)) \<Longrightarrow> snd p = zero_payment"
  by (auto simp: seed_summary_def empty_object_def dest!: own_assign_cases own_foldl_assign)

lemma method_name_in_keys:
  "method_name pms iv \<in> insert ''Pendiente'' (PaymentMethod.name ` set pms)"
  by (auto simp: method_name_def find_Some_iff split: option.splits)

lemma method_name_seeded:
  "seeded pms ps \<Longrightarrow> \<exists>e. obj_get ps (method_name pms iv) = Some e"
  using method_name_in_keys [of pms iv] by (auto simp: seeded_def)

lemma obj_get_add_payment:
  assumes "obj_get ps (method_name pms iv) = Some e"
  shows "obj_get (add_payment pms ps iv) k =
     (if k = method_name pms iv
      then Some \<lparr>quantity = quantity e + 1,
                 total = num_add (PaymentEntry.total e) (parseFloat (Invoice.total iv))\<rparr>
      else obj_get ps k)"
  using assms by (simp add: add_payment_def obj_get_mutate)

lemma seeded_add_payment: "seeded pms ps \<Longrightarrow> seeded pms (add_payment pms ps iv)"
proof -
  assume s: "seeded pms ps"
  then obtain e where "obj_get ps (method_name pms iv) = Some e"
    using method_name_seeded by blast
  from obj_get_add_payment [OF this] s show ?thesis
    by (simp add: seeded_def)
qed

lemma proto_free_add_payment: "proto_free ps \<Longrightarrow> proto_free (add_payment pms ps iv)"
  by (simp add: add_payment_def Let_def proto_free_mutate split: option.splits)

lemma seeded_foldl: "seeded pms ps \<Longrightarrow> seeded pms (foldl (add_payment pms) ps invs)"
  by (induction invs arbitrary: ps) (simp_all add: seeded_add_payment)

lemma proto_free_foldl: "proto_free ps \<Longrightarrow> proto_free (foldl (add_payment pms) ps invs)"
  by (induction invs arbitrary: ps) (simp_all add: proto_free_add_payment)

lemma paymentSummary_eq:
  "paymentSummary (dailySummary invs pms emps)
     = foldl (add_payment pms) (seed_summary pms) (delivered_invoices invs)"
  by (simp add: dailySummary_def Let_def)

lemma seeded_paymentSummary: "seeded pms (paymentSummary (dailySummary invs pms emps))"
  by (simp add: paymentSummary_eq seeded_foldl seeded_seed_summary)

lemma proto_free_paymentSummary: "proto_free (paymentSummary (dailySummary invs pms emps))"
  by (simp add: paymentSummary_eq proto_free_foldl proto_free_seed_summary)

section \<open>Counting invoices\<close>

lemma count_split:
  "length invs = length (delivered_invoices invs) + length (pending_invoices invs)
     + length (other_invoices invs)"
  by (induction invs) (auto simp: delivered_invoices_def pending_invoices_def other_invoices_def)

text \<open>
  C10. The delivered and the pending invoices are disjoint, their counts add up to at most
  \<open>totalInvoices\<close>, and the difference is exactly the number of invoices that are paid but
  not delivered or unpaid and cancelled, which are in neither set.
\<close>

theorem delivered_pending_counts:
  "set (delivered_invoices invs) \<inter> set (pending_invoices invs) = {} \<and>
   deliveredInvoices (dailySummary invs pms emps) + pendingInvoices (dailySummary invs pms emps)
     \<le> totalInvoices (dailySummary invs pms emps) \<and>
   totalInvoices (dailySummary invs pms emps) =
     deliveredInvoices (dailySummary invs pms emps) + pendingInvoices (dailySummary invs pms emps)
       + length (other_invoices invs) \<and>
   set (other_invoices invs) \<inter> (set (delivered_invoices invs) \<union> set (pending_invoices invs)) = {}"
proof -
  have "set (delivered_invoices invs) \<inter> set (pending_invoices invs) = {}"
    by (auto simp: delivered_invoices_def pending_invoices_def)
  moreover have "set (other_invoices invs)
      \<inter> (set (delivered_invoices invs) \<union> set (pending_invoices invs)) = {}"
    by (auto simp: delivered_invoices_def pending_invoices_def other_invoices_def)
  moreover note count_split [of invs]
  ultimately show ?thesis
    by (simp add: dailySummary_def Let_def)
qed

theorem delivered_pending_counts_witness:
  "deliveredInvoices (dailySummary
      [example_invoice ''delivered'' True ''cash'' ''25.00'',
       example_invoice ''received'' False ''cash'' ''10.00'',
       example_invoice ''ready'' True ''cash'' ''5.00'',
       example_invoice ''cancelled'' False ''cash'' ''7.00''] [] []) = 1 \<and>
   pendingInvoices (dailySummary
      [example_invoice ''delivered'' True ''cash'' ''25.00'',
       example_invoice ''received'' False ''cash'' ''10.00'',
       example_invoice ''ready'' True ''cash'' ''5.00'',
       example_invoice ''cancelled'' False ''cash'' ''7.00''] [] []) = 1 \<and>
   totalInvoices (dailySummary
      [example_invoice ''delivered'' True ''cash'' ''25.00'',
       example_invoice ''received'' False ''cash'' ''10.00'',
       example_invoice ''ready'' True ''cash'' ''5.00'',
       example_invoice ''cancelled'' False ''cash'' ''7.00''] [] []) = 1 + 1 + 2"
  using delivered_pending_counts [of
      "[example_invoice ''delivered'' True ''cash'' ''25.00'',
        example_invoice ''received'' False ''cash'' ''10.00'',
        example_invoice ''ready'' True ''cash'' ''5.00'',
        example_invoice ''cancelled'' False ''cash'' ''7.00'']" "[]" "[]"]
  by (simp add: dailySummary_def Let_def delivered_invoices_def pending_invoices_def
      other_invoices_def example_invoice_def)

section \<open>Quantities of the payment summary\<close>

lemma total_quantity_own:
  "total_quantity ps = sum_list (map (\<lambda>p. quantity (snd p)) (own ps))"
  by (simp add: total_quantity_def sum_object_entries)

lemma quantity_add_payment:
  assumes "proto_free ps" and "seeded pms ps"
  shows "total_quantity (add_payment pms ps iv)
     = total_quantity ps + (if method_name pms iv = ''__proto__'' then 0 else 1)"
proof -
  let ?k = "method_name pms iv"
  from method_name_seeded [OF assms(2)] obtain e where e: "obj_get ps ?k = Some e"
    by blast
  let ?f = "\<lambda>e. \<lparr>quantity = quantity e + 1,
    total = num_add (PaymentEntry.total e) (parseFloat (Invoice.total iv))\<rparr>"
  have step: "add_payment pms ps iv = obj_mutate ?k ?f ps"
    by (simp add: add_payment_def e)
  show ?thesis
  proof (cases "?k = ''__proto__''")
    case True
    with assms(1) have "map_of (own ps) ?k = None"
      by (simp add: proto_free_def)
    with assms(1) True show ?thesis
      by (simp add: step total_quantity_own own_mutate)
  next
    case False
    with assms(1) e have m: "map_of (own ps) ?k = Some e"
      by (simp add: obj_get_own)
    from sum_update_present [OF m, of quantity "?f e"] assms(1) False m show ?thesis
      by (simp add: step total_quantity_own own_mutate)
  qed
qed

lemma quantity_foldl:
  assumes "proto_free ps" and "seeded pms ps"
  shows "total_quantity (foldl (add_payment pms) ps invs)
       + length (payment_bucket pms ''__proto__'' invs)
     = total_quantity ps + length invs"
  using assms
proof (induction invs arbitrary: ps)
  case Nil
  then show ?case by (simp add: payment_bucket_def)
next
  case (Cons iv invs)
  from Cons.IH [OF proto_free_add_payment [OF Cons.prems(1)] seeded_add_payment [OF Cons.prems(2)]]
    quantity_add_payment [OF Cons.prems]
  show ?case
    by (simp add: payment_bucket_def)
qed

lemma quantity_seed: "total_quantity (seed_summary pms) = 0"
  using seed_entries_zero [of _ pms]
  by (auto simp: total_quantity_own sum_list_eq_0_iff zero_payment_def)

text \<open>
  The entries of the payment summary count the delivered invoices whose payment method
  does not resolve to the name \<^verbatim>\<open>__proto__\<close>.
\<close>

lemma quantity_sum_entries:
  "total_quantity (paymentSummary (dailySummary invs pms emps))
       + length (payment_bucket pms ''__proto__'' (delivered_invoices invs))
     = deliveredInvoices (dailySummary invs pms emps)"
  using quantity_foldl [OF proto_free_seed_summary seeded_seed_summary,
      of pms "delivered_invoices invs"]
  by (simp add: dailySummary_def Let_def quantity_seed)

text \<open>
  The value read under a name the summary is seeded with is an entry that holds the
  number of delivered invoices whose payment method resolves to that name.
\<close>

lemma payment_bucket_quantity:
  assumes "obj_get ps k = Some e" and "seeded pms ps"
  shows "\<exists>e'. obj_get (foldl (add_payment pms) ps invs) k = Some e' \<and>
     quantity e' = quantity e + length (payment_bucket pms k invs)"
  using assms
proof (induction invs arbitrary: ps e)
  case Nil
  then show ?case by (simp add: payment_bucket_def)
next
  case (Cons iv invs)
  from method_name_seeded [OF Cons.prems(2)]
  obtain e0 where e0: "obj_get ps (method_name pms iv) = Some e0"
    by blast
  note s = seeded_add_payment [OF Cons.prems(2), of iv]
  show ?case
  proof (cases "method_name pms iv = k")
    case True
    with e0 Cons.prems(1) have "e0 = e" by simp
    with obj_get_add_payment [OF e0, of k] True
    have "obj_get (add_payment pms ps iv) k = Some \<lparr>quantity = quantity e + 1,
        total = num_add (PaymentEntry.total e) (parseFloat (Invoice.total iv))\<rparr>"
      by simp
    from Cons.IH [OF this s] True show ?thesis
      by (simp add: payment_bucket_def)
  next
    case False
    with obj_get_add_payment [OF e0, of k] Cons.prems(1)
    have "obj_get (add_payment pms ps iv) k = Some e"
      by simp
    from Cons.IH [OF this s] False show ?thesis
      by (simp add: payment_bucket_def)
  qed
qed

text \<open>
  C7 fails on the code for a payment method named \<^verbatim>\<open>__proto__\<close>. One delivered and
  paid invoice whose payment method resolves to that name is counted by
  \<open>deliveredInvoices\<close>, but the payment summary gets no entry for it: its only entry is
  \<open>Pendiente\<close> with quantity 0, so the quantities of the entries add up to 0. The invoice
  is counted on the object that the seeding made the prototype of the summary.
\<close>

theorem quantity_sum_failing_input:
  "deliveredInvoices (dailySummary [example_invoice ''delivered'' True ''other'' ''25.00'']
      [proto_method] []) = 1 \<and>
   object_entries (paymentSummary (dailySummary
      [example_invoice ''delivered'' True ''other'' ''25.00''] [proto_method] []))
     = [(''Pendiente'', \<lparr>quantity = 0, total = Fin 0\<rparr>)] \<and>
   total_quantity (paymentSummary (dailySummary
      [example_invoice ''delivered'' True ''other'' ''25.00''] [proto_method] [])) = 0 \<and>
   proto (paymentSummary (dailySummary
      [example_invoice ''delivered'' True ''other'' ''25.00''] [proto_method] []))
     = Some \<lparr>quantity = 1, total = Fin 25\<rparr>"
  by code_simp

section \<open>Evaluating parseFloat\<close>

lemma parseFloat_empty: "parseFloat '''' = NaN"
  by code_simp

lemma parseFloat_abc: "parseFloat ''abc'' = NaN"
  by code_simp

lemma parseFloat_0: "parseFloat ''0'' = Fin 0"
  by code_simp

lemma parseFloat_minus_5: "parseFloat ''-5'' = Fin (- 5)"
  by code_simp

lemma parseFloat_40: "parseFloat ''40.00'' = Fin 40"
  by code_simp

lemma parseFloat_100: "parseFloat ''100.00'' = Fin 100"
  by code_simp

section \<open>Validation of the create request\<close>

lemma num_lt_zero_iff:
  "num_lt x (Fin 0) \<longleftrightarrow> x = NegInf \<or> (\<exists>r<0. x = Fin r)"
  by (cases x) auto

text \<open>
  C9. Pressing the create button with an empty \<open>countedCash\<close>, or one that parses to a
  number below zero (a negative double or \<open>-Infinity\<close>), shows the validation error and
  does not invoke the create mutation; every other \<open>countedCash\<close> invokes the mutation
  with the selected date and the parsed amount.
\<close>

theorem create_validation:
  "(counted = [] \<or> num_lt (parseFloat counted) (Fin 0) \<longrightarrow>
      handleCreateCashClosure selectedDate opening counted note = ValidationError) \<and>
   (counted \<noteq> [] \<and> \<not> num_lt (parseFloat counted) (Fin 0) \<longrightarrow>
      (\<exists>req. handleCreateCashClosure selectedDate opening counted note = Mutate req \<and>
         closingDate req = selectedDate \<and> countedCash req = parseFloat counted)) \<and>
   (num_lt (parseFloat counted) (Fin 0) \<longleftrightarrow>
      parseFloat counted = NegInf \<or> (\<exists>r<0. parseFloat counted = Fin r))"
  by (simp add: handleCreateCashClosure_def num_lt_zero_iff)

theorem create_validation_witness:
  "handleCreateCashClosure ''2024-01-01'' ''0'' '''' '''' = ValidationError \<and>
   handleCreateCashClosure ''2024-01-01'' ''0'' ''-5'' '''' = ValidationError \<and>
   (\<exists>req. handleCreateCashClosure ''2024-01-01'' ''0'' ''40.00'' '''' = Mutate req \<and>
      closingDate req = ''2024-01-01'' \<and> countedCash req = Fin 40) \<and>
   (\<exists>req. handleCreateCashClosure ''2024-01-01'' ''0'' ''abc'' '''' = Mutate req \<and>
      closingDate req = ''2024-01-01'' \<and> countedCash req = NaN)"
  using create_validation [of "''''" "''2024-01-01''" "''0''" "''''"]
    create_validation [of "''-5''" "''2024-01-01''" "''0''" "''''"]
    create_validation [of "''40.00''" "''2024-01-01''" "''0''" "''''"]
    create_validation [of "''abc''" "''2024-01-01''" "''0''" "''''"]
  by (simp add: parseFloat_empty parseFloat_minus_5 parseFloat_40 parseFloat_abc)

section \<open>Renders of the memoised summary\<close>





section \<open>Rounding is exact on whole numbers\<close>

lemma round_half_even_of_int: "round_half_even (of_int m) = m"
  by (simp add: round_half_even_def)

lemma floor_log2_of_int:
  assumes "0 < k"
  shows "floor_log2 (of_int k) = bitlen k - 1"
proof -
  from assms have b: "1 \<le> bitlen k"
    by (simp add: bitlen_alt_def)
  from bitlen_bounds [OF assms] have "(2::int) ^ nat (bitlen k - 1) \<le> k"
    by simp
  then have "(of_int ((2::int) ^ nat (bitlen k - 1)) :: rat) \<le> of_int k"
    by (simp only: of_int_le_iff)
  then have "pow2 (bitlen k - 1) \<le> of_int k"
    using b by (simp add: pow2_def)
  moreover have "bitlen 1 = 1"
    by (simp add: bitlen_alt_def)
  ultimately show ?thesis
    by (simp add: floor_log2_def)
qed

lemma bitlen_le_54:
  assumes "0 < k" and "k \<le> 2 ^ 53"
  shows "bitlen k - 1 \<le> 53"
proof (rule ccontr)
  assume "\<not> bitlen k - 1 \<le> 53"
  then have "54 \<le> nat (bitlen k - 1)" by simp
  then have "(2::int) ^ 54 \<le> 2 ^ nat (bitlen k - 1)"
    by (rule power_increasing) simp
  with bitlen_bounds [OF assms(1)] assms(2) show False by simp
qed

lemma round_double_pos_int:
  assumes "0 < k" and "k \<le> 2 ^ 53"
  shows "round_double (of_int k) = Fin (of_int k)"
proof -
  define e where "e = bitlen k - 1"
  have e0: "0 \<le> e"
    using assms(1) by (simp add: e_def bitlen_alt_def)
  have e53: "e \<le> 53"
    using bitlen_le_54 [OF assms] by (simp add: e_def)
  have fl: "floor_log2 \<bar>of_int k\<bar> = e"
    using assms(1) floor_log2_of_int [OF assms(1)] by (simp add: e_def)
  have low: "(2::int) ^ nat e \<le> k"
    using bitlen_bounds [OF assms(1)] by (simp add: e_def)
  show ?thesis
  proof (cases "e = 53")
    case True
    with low assms(2) have k: "k = 2 ^ 53" by simp
    have "round_half_even (of_int k / pow2 1) = 2 ^ 52"
    proof -
      have "(of_int k / pow2 1 :: rat) = of_int (2 ^ 52)"
        by (simp add: k pow2_def)
      then show ?thesis
        by (simp only: round_half_even_of_int)
    qed
    then show ?thesis
      using fl True assms(1) by (simp add: round_double_def Let_def k pow2_def)
  next
    case False
    with e53 have e52: "e \<le> 52" by simp
    define j where "j = nat (52 - e)"
    have p: "pow2 (e - 52) = 1 / 2 ^ j"
      using e52 by (cases "e = 52") (simp_all add: pow2_def j_def)
    have "(of_int k / pow2 (e - 52) :: rat) = of_int (k * 2 ^ j)"
      by (simp add: p)
    then have r: "round_half_even (of_int k / pow2 (e - 52)) = k * 2 ^ j"
      by (simp only: round_half_even_of_int)
    have "max e (- 1022) = e"
      using e0 by simp
    then show ?thesis
      using fl assms(1) e52 r by (simp add: round_double_def Let_def p)
  qed
qed

lemma round_double_of_int:
  assumes "\<bar>n\<bar> \<le> 2 ^ 53"
  shows "round_double (of_int n) = Fin (of_int n)"
proof (cases "n = 0")
  case True
  then show ?thesis by (simp add: round_double_def)
next
  case False
  then have k: "0 < \<bar>n\<bar>" by simp
  from round_double_pos_int [OF k assms]
  have "round_double (of_int \<bar>n\<bar>) = Fin (of_int \<bar>n\<bar>)" .
  show ?thesis
  proof (cases "0 < n")
    case True
    with round_double_pos_int [of n] assms show ?thesis by simp
  next
    case neg: False
    with False have n: "n < 0" by simp
    have sym: "round_double (- r) = (case round_double r of Fin x \<Rightarrow> if x = 0 then NegZero else Fin (- x) | y \<Rightarrow> y)"
      if "0 < r" "round_double r = Fin r" for r
      using that by (simp add: round_double_def Let_def split: if_splits)
    from round_double_pos_int [of "- n"] assms n
    have "round_double (of_int (- n)) = Fin (of_int (- n))" by simp
    with sym [of "of_int (- n)"] n show ?thesis by simp
  qed
qed

lemma num_add_int:
  "\<bar>a + b\<bar> \<le> 2 ^ 53 \<Longrightarrow> num_add (Fin (of_int a)) (Fin (of_int b)) = Fin (of_int (a + b))"
  using round_double_of_int [of "a + b"] by simp

lemma round_double_numeral:
  "numeral k \<le> (2 ^ 53 :: int) \<Longrightarrow> round_double (numeral k) = Fin (numeral k)"
  using round_double_of_int [of "numeral k"] by simp

lemma int_amount_cases:
  assumes "int_amount x = Some z"
  obtains "x = Fin (of_int z)" | "x = NegZero" and "z = 0"
  using assms by (cases x) (auto simp: int_amount_def split: if_splits)

lemma int_amount_of_int: "int_amount (Fin (of_int z)) = Some z"
  by (simp add: int_amount_def)

lemma int_of_of_int: "int_of (Fin (of_int z)) = z"
  by (simp add: int_of_def int_amount_of_int)

lemma num_add_amount:
  assumes "int_amount x = Some z" and "\<bar>s + z\<bar> \<le> 2 ^ 53"
  shows "num_add (Fin (of_int s)) x = Fin (of_int (s + z))"
  using assms(1)
proof (cases rule: int_amount_cases)
  case 1
  with num_add_int [OF assms(2)] show ?thesis by simp
next
  case 2
  then show ?thesis by simp
qed

lemma foldl_add_exact:
  assumes "\<forall>x \<in> set xs. int_amount x \<noteq> None"
    and "\<bar>s\<bar> + (\<Sum>x\<leftarrow>xs. \<bar>int_of x\<bar>) \<le> 2 ^ 53"
  shows "foldl num_add (Fin (of_int s)) xs = Fin (of_int (s + exact_sum xs))"
  using assms
proof (induction xs arbitrary: s)
  case Nil
  then show ?case by (simp add: exact_sum_def)
next
  case (Cons x xs)
  from Cons.prems(1) obtain z where z: "int_amount x = Some z" by auto
  then have iz: "int_of x = z" by (simp add: int_of_def)
  have nn: "0 \<le> (\<Sum>x\<leftarrow>xs. \<bar>int_of x\<bar>)"
    by (rule sum_list_nonneg) auto
  from Cons.prems(2) iz nn have b1: "\<bar>s + z\<bar> \<le> 2 ^ 53" by simp
  from Cons.prems(2) iz have b2: "\<bar>s + z\<bar> + (\<Sum>x\<leftarrow>xs. \<bar>int_of x\<bar>) \<le> 2 ^ 53" by simp
  from Cons.IH [of "s + z"] Cons.prems(1) b2 num_add_amount [OF z b1] iz
  show ?case by (simp add: exact_sum_def add.assoc)
qed

lemma float_sum_exact:
  "whole_numbers xs \<Longrightarrow> float_sum xs = Fin (of_int (exact_sum xs))"
  using foldl_add_exact [of xs 0] by (simp add: whole_numbers_def float_sum_def)

lemma sum_field_float_sum: "sum_field field invs = float_sum (amounts field invs)"
  by (simp add: sum_field_def float_sum_def amounts_def foldl_map)

lemma sum_field_exact:
  "whole_numbers (amounts field invs) \<Longrightarrow>
     sum_field field invs = Fin (of_int (exact_sum (amounts field invs)))"
  by (simp add: sum_field_float_sum float_sum_exact)

section \<open>The totals of the payment summary\<close>

lemma abs_le_abs_sum: "x \<in> set xs \<Longrightarrow> \<bar>int_of x\<bar> \<le> abs_sum xs"
proof (induction xs)
  case Nil
  then show ?case by simp
next
  case (Cons a xs)
  have "0 \<le> abs_sum xs"
    unfolding abs_sum_def by (rule sum_list_nonneg) auto
  with Cons show ?case
    by (auto simp: abs_sum_def)
qed

lemma all_whole_summary_totals:
  "all_whole (summary_totals ps)
     \<longleftrightarrow> all_whole (map (\<lambda>p. PaymentEntry.total (snd p)) (own ps))"
  by (simp add: all_whole_def summary_totals_def set_object_entries)

lemma exact_sum_summary_totals:
  "exact_sum (summary_totals ps) = exact_sum (map (\<lambda>p. PaymentEntry.total (snd p)) (own ps))"
  using sum_object_entries [of "\<lambda>p. int_of (PaymentEntry.total (snd p))" ps]
  by (simp add: exact_sum_def summary_totals_def o_def)

lemma abs_sum_summary_totals:
  "abs_sum (summary_totals ps) = abs_sum (map (\<lambda>p. PaymentEntry.total (snd p)) (own ps))"
  using sum_object_entries [of "\<lambda>p. \<bar>int_of (PaymentEntry.total (snd p))\<bar>" ps]
  by (simp add: abs_sum_def summary_totals_def o_def)

lemma add_payment_exact:
  assumes pf: "proto_free ps" and sd: "seeded pms ps"
    and key: "method_name pms iv \<noteq> ''__proto__''"
    and fin: "all_whole (summary_totals ps)"
    and a: "int_amount (parseFloat (Invoice.total iv)) = Some a"
    and bound: "abs_sum (summary_totals ps) + \<bar>a\<bar> \<le> 2 ^ 53"
  shows "all_whole (summary_totals (add_payment pms ps iv)) \<and>
     exact_sum (summary_totals (add_payment pms ps iv)) = exact_sum (summary_totals ps) + a \<and>
     abs_sum (summary_totals (add_payment pms ps iv)) \<le> abs_sum (summary_totals ps) + \<bar>a\<bar>"
proof -
  let ?k = "method_name pms iv"
  let ?t = "\<lambda>p. PaymentEntry.total (snd p)"
  from method_name_seeded [OF sd] obtain e where g: "obj_get ps ?k = Some e"
    by blast
  with pf key have e: "map_of (own ps) ?k = Some e"
    by (simp add: obj_get_own)
  then have mem: "(?k, e) \<in> set (own ps)"
    by (rule map_of_SomeD)
  then have tmem: "PaymentEntry.total e \<in> set (map ?t (own ps))"
    by force
  from fin have "all_whole (map ?t (own ps))"
    by (simp only: all_whole_summary_totals)
  with tmem obtain z where z: "PaymentEntry.total e = Fin (of_int z)"
    unfolding all_whole_def by blast
  from abs_le_abs_sum [OF tmem] z have zb: "\<bar>z\<bar> \<le> abs_sum (summary_totals ps)"
    by (simp add: int_of_of_int abs_sum_summary_totals)
  with bound have "\<bar>z + a\<bar> \<le> 2 ^ 53" by simp
  from num_add_amount [OF a this] z
  have new: "num_add (PaymentEntry.total e) (parseFloat (Invoice.total iv)) = Fin (of_int (z + a))"
    by simp
  define e' where "e' = \<lparr>quantity = quantity e + 1, total = Fin (of_int (z + a))\<rparr>"
  have upd: "own (add_payment pms ps iv) = AList.update ?k e' (own ps)"
    using pf by (simp add: add_payment_def g own_mutate e new e'_def)
  have 1: "all_whole (map ?t (AList.update ?k e' (own ps)))"
    using \<open>all_whole (map ?t (own ps))\<close>
    by (auto simp: all_whole_def e'_def simp del: of_int_add dest!: set_update_cases)
  from sum_update_present [OF e, of "\<lambda>e. int_of (PaymentEntry.total e)" e']
  have 2: "exact_sum (map ?t (AList.update ?k e' (own ps))) = exact_sum (map ?t (own ps)) + a"
    by (simp add: exact_sum_def o_def z e'_def int_of_of_int del: of_int_add)
  from sum_update_present [OF e, of "\<lambda>e. \<bar>int_of (PaymentEntry.total e)\<bar>" e']
  have 3: "abs_sum (map ?t (AList.update ?k e' (own ps))) \<le> abs_sum (map ?t (own ps)) + \<bar>a\<bar>"
    by (simp add: abs_sum_def o_def z e'_def int_of_of_int del: of_int_add)
  from 1 2 3 show ?thesis
    by (simp add: all_whole_summary_totals exact_sum_summary_totals abs_sum_summary_totals upd)
qed

lemma method_name_not_proto:
  assumes "''__proto__'' \<notin> PaymentMethod.name ` set pms"
  shows "method_name pms iv \<noteq> ''__proto__''"
proof
  assume "method_name pms iv = ''__proto__''"
  with method_name_in_keys [of pms iv]
  have "''__proto__'' \<in> insert ''Pendiente'' (PaymentMethod.name ` set pms)"
    by simp
  then have "''__proto__'' \<in> PaymentMethod.name ` set pms"
    by simp
  with assms show False ..
qed

lemma payment_fold_exact:
  assumes "proto_free ps" and "seeded pms ps"
    and "''__proto__'' \<notin> PaymentMethod.name ` set pms"
    and "all_whole (summary_totals ps)"
    and "\<forall>x \<in> set (amounts Invoice.total invs). int_amount x \<noteq> None"
    and "abs_sum (summary_totals ps) + abs_sum (amounts Invoice.total invs) \<le> 2 ^ 53"
  shows "all_whole (summary_totals (foldl (add_payment pms) ps invs)) \<and>
     exact_sum (summary_totals (foldl (add_payment pms) ps invs))
       = exact_sum (summary_totals ps) + exact_sum (amounts Invoice.total invs) \<and>
     abs_sum (summary_totals (foldl (add_payment pms) ps invs))
       \<le> abs_sum (summary_totals ps) + abs_sum (amounts Invoice.total invs)"
  using assms
proof (induction invs arbitrary: ps)
  case Nil
  then show ?case by (simp add: amounts_def exact_sum_def abs_sum_def)
next
  case (Cons iv invs)
  let ?ps = "add_payment pms ps iv"
  from Cons.prems(5) obtain a where a: "int_amount (parseFloat (Invoice.total iv)) = Some a"
    by (auto simp: amounts_def)
  then have ia: "int_of (parseFloat (Invoice.total iv)) = a"
    by (simp add: int_of_def)
  have nn: "0 \<le> abs_sum (amounts Invoice.total invs)"
    unfolding abs_sum_def by (rule sum_list_nonneg) auto
  have split: "abs_sum (amounts Invoice.total (iv # invs)) = \<bar>a\<bar> + abs_sum (amounts Invoice.total invs)"
    "exact_sum (amounts Invoice.total (iv # invs)) = a + exact_sum (amounts Invoice.total invs)"
    by (simp_all add: abs_sum_def exact_sum_def amounts_def ia)
  from Cons.prems(6) nn split have b: "abs_sum (summary_totals ps) + \<bar>a\<bar> \<le> 2 ^ 53"
    by simp
  note step = add_payment_exact [OF Cons.prems(1,2) method_name_not_proto [OF Cons.prems(3)]
      Cons.prems(4) a b]
  have rest: "\<forall>x \<in> set (amounts Invoice.total invs). int_amount x \<noteq> None"
    using Cons.prems(5) by (simp add: amounts_def)
  have b': "abs_sum (summary_totals ?ps) + abs_sum (amounts Invoice.total invs) \<le> 2 ^ 53"
    using step Cons.prems(6) split by simp
  from Cons.IH [OF proto_free_add_payment [OF Cons.prems(1)]
      seeded_add_payment [OF Cons.prems(2)] Cons.prems(3) _ rest b'] step split
  show ?case
    by simp
qed

lemma seed_totals:
  "all_whole (summary_totals (seed_summary pms)) \<and>
   exact_sum (summary_totals (seed_summary pms)) = 0 \<and>
   abs_sum (summary_totals (seed_summary pms)) = 0"
proof -
  let ?xs = "map (\<lambda>p. PaymentEntry.total (snd p)) (own (seed_summary pms))"
  have z: "x \<in> set ?xs \<Longrightarrow> x = Fin (of_int 0)" for x
    using seed_entries_zero [of _ pms] by (auto simp: zero_payment_def)
  then have "all_whole ?xs"
    unfolding all_whole_def by blast
  moreover have "\<forall>x \<in> set ?xs. int_of x = 0"
  proof
    fix x
    assume "x \<in> set ?xs"
    from z [OF this] int_of_of_int [of 0] show "int_of x = 0"
      by simp
  qed
  then have "exact_sum ?xs = 0" "abs_sum ?xs = 0"
    by (simp_all add: exact_sum_def abs_sum_def cong: map_cong)
  ultimately show ?thesis
    by (simp add: all_whole_summary_totals exact_sum_summary_totals abs_sum_summary_totals)
qed

lemma rational_sum_whole:
  "all_whole xs \<Longrightarrow> rational_sum xs = Some (of_int (exact_sum xs))"
proof -
  assume w: "all_whole xs"
  then have "list_all (\<lambda>x. fin_val x \<noteq> None) xs"
    by (auto simp: all_whole_def list_all_iff fin_val_def)
  moreover from w have "(\<Sum>x\<leftarrow>xs. the (fin_val x)) = of_int (exact_sum xs)"
  proof (induction xs)
    case Nil
    then show ?case by (simp add: exact_sum_def)
  next
    case (Cons x xs)
    then obtain z where "x = Fin (of_int z)" by (auto simp: all_whole_def)
    with Cons show ?case
      by (simp add: exact_sum_def all_whole_def fin_val_def int_of_of_int)
  qed
  ultimately show ?thesis
    by (simp add: rational_sum_def)
qed

lemma all_whole_whole_numbers:
  "all_whole xs \<Longrightarrow> abs_sum xs \<le> 2 ^ 53 \<Longrightarrow> whole_numbers xs"
  by (auto simp: all_whole_def whole_numbers_def abs_sum_def int_amount_of_int)

text \<open>
  C6, as the code has it. When no payment method is named \<^verbatim>\<open>__proto__\<close> and the totals
  of the delivered invoices are whole numbers whose absolute values add up to at most
  \<open>2^53\<close>, no addition of the aggregation rounds, and the totals of the entries of the
  payment summary add up to \<open>totalRevenue\<close>, both as an exact sum of their values and
  added up as numbers in the order of the entries.
\<close>

theorem payment_totals_add_up:
  assumes "''__proto__'' \<notin> PaymentMethod.name ` set pms"
    and "whole_numbers (amounts Invoice.total (delivered_invoices invs))"
  shows "rational_sum (summary_totals (paymentSummary (dailySummary invs pms emps)))
       = fin_val (totalRevenue (dailySummary invs pms emps)) \<and>
     float_sum (summary_totals (paymentSummary (dailySummary invs pms emps)))
       = totalRevenue (dailySummary invs pms emps) \<and>
     totalRevenue (dailySummary invs pms emps)
       = Fin (of_int (exact_sum (amounts Invoice.total (delivered_invoices invs))))"
proof -
  let ?d = "delivered_invoices invs"
  let ?ps = "foldl (add_payment pms) (seed_summary pms) ?d"
  from assms(2) have w: "\<forall>x \<in> set (amounts Invoice.total ?d). int_amount x \<noteq> None"
    and b: "abs_sum (amounts Invoice.total ?d) \<le> 2 ^ 53"
    by (simp_all add: whole_numbers_def abs_sum_def)
  from payment_fold_exact [OF proto_free_seed_summary seeded_seed_summary assms(1) _ w]
    seed_totals [of pms] b
  have inv: "all_whole (summary_totals ?ps)"
    "exact_sum (summary_totals ?ps) = exact_sum (amounts Invoice.total ?d)"
    "abs_sum (summary_totals ?ps) \<le> abs_sum (amounts Invoice.total ?d)"
    by simp_all
  have rev: "totalRevenue (dailySummary invs pms emps)
      = Fin (of_int (exact_sum (amounts Invoice.total ?d)))"
    using sum_field_exact [OF assms(2)] by (simp add: dailySummary_def Let_def)
  have ps: "paymentSummary (dailySummary invs pms emps) = ?ps"
    by (simp add: dailySummary_def Let_def)
  from inv(3) b have "abs_sum (summary_totals ?ps) \<le> 2 ^ 53" by simp
  from float_sum_exact [OF all_whole_whole_numbers [OF inv(1) this]] inv(2)
  have fs: "float_sum (summary_totals ?ps) = Fin (of_int (exact_sum (amounts Invoice.total ?d)))"
    by simp
  from rational_sum_whole [OF inv(1)] inv(2)
  have rs: "rational_sum (summary_totals ?ps) = Some (of_int (exact_sum (amounts Invoice.total ?d)))"
    by simp
  from rev ps fs rs show ?thesis
    by (simp add: fin_val_def)
qed

lemma parseFloat_25: "parseFloat ''25.00'' = Fin 25"
  by code_simp

lemma parseFloat_10: "parseFloat ''10.00'' = Fin 10"
  by code_simp

lemma parseFloat_5: "parseFloat ''5.00'' = Fin 5"
  by code_simp

lemma int_amount_numeral: "int_amount (Fin (numeral k)) = Some (numeral k)"
  using int_amount_of_int [of "numeral k"] by simp

lemma whole_invoices_amounts:
  "amounts Invoice.total (delivered_invoices whole_invoices) = [Fin 25, Fin 10, Fin 5]"
  by (simp add: whole_invoices_def delivered_invoices_def example_invoice_def amounts_def
      parseFloat_25 parseFloat_10 parseFloat_5)

theorem payment_totals_add_up_witness:
  "''__proto__'' \<notin> PaymentMethod.name ` set [cash_method, card_method] \<and>
   whole_numbers (amounts Invoice.total (delivered_invoices whole_invoices)) \<and>
   float_sum (summary_totals (paymentSummary
      (dailySummary whole_invoices [cash_method, card_method] [])))
     = totalRevenue (dailySummary whole_invoices [cash_method, card_method] []) \<and>
   totalRevenue (dailySummary whole_invoices [cash_method, card_method] []) = Fin 40"
proof -
  have names: "''__proto__'' \<notin> PaymentMethod.name ` set [cash_method, card_method]"
    by (simp add: cash_method_def card_method_def)
  have whole: "whole_numbers (amounts Invoice.total (delivered_invoices whole_invoices))"
    by (simp add: whole_invoices_amounts whole_numbers_def int_of_def int_amount_numeral)
  have total: "exact_sum (amounts Invoice.total (delivered_invoices whole_invoices)) = 40"
    by (simp add: whole_invoices_amounts exact_sum_def int_of_def int_amount_numeral)
  from payment_totals_add_up [OF names whole, of "[]"] names whole total show ?thesis
    by simp
qed

lemma drift_revenue:
  "totalRevenue (dailySummary drift_invoices [cash_method, card_method] [])
     = Fin (1351079888211149 / 2251799813685248)"
  by code_simp

lemma drift_float_sum:
  "float_sum (summary_totals (paymentSummary
      (dailySummary drift_invoices [cash_method, card_method] [])))
     = Fin (5404319552844595 / 9007199254740992)"
  by code_simp

lemma drift_rational_sum:
  "rational_sum (summary_totals (paymentSummary
      (dailySummary drift_invoices [cash_method, card_method] [])))
     = Some (21617278211378381 / 36028797018963968)"
  by code_simp

text \<open>
  C6 as the specification states it fails. For delivered invoices of 0.10 in cash and of
  0.20 and 0.30 by card, \<open>totalRevenue\<close> is the double 0.6000000000000001, the totals of
  the entries added as numbers give the double 0.6, and the exact sum of the values of
  the entries is neither.
\<close>

theorem payment_totals_counterexample:
  "float_sum (summary_totals (paymentSummary
      (dailySummary drift_invoices [cash_method, card_method] [])))
     \<noteq> totalRevenue (dailySummary drift_invoices [cash_method, card_method] []) \<and>
   rational_sum (summary_totals (paymentSummary
      (dailySummary drift_invoices [cash_method, card_method] [])))
     \<noteq> fin_val (totalRevenue (dailySummary drift_invoices [cash_method, card_method] []))"
  by (simp add: drift_revenue drift_float_sum drift_rational_sum fin_val_def)

lemma parseFloat_50: "parseFloat ''50.00'' = Fin 50"
  by code_simp

section \<open>System cash\<close>

lemma find_Some_mem: "find P xs = Some x \<Longrightarrow> x \<in> set xs \<and> P x"
  by (auto simp: find_Some_iff)

text \<open>
  C1, as the code has it. Without a payment method of code \<open>cash\<close> (in particular with
  no payment methods at all) the system cash is 0, whatever the opening cash. With one,
  the value read from the payment summary under the name of the first such method is an
  entry, and the system cash is the parsed opening cash plus that entry's total, a total
  that is \<^verbatim>\<open>NaN\<close> or zero counting as 0.
\<close>

theorem systemCash_value:
  "(find (\<lambda>m. code m = ''cash'') pms = None \<longrightarrow>
      systemCash oc (paymentSummary (dailySummary invs pms emps)) pms = Fin 0) \<and>
   (\<forall>cashMethod. find (\<lambda>m. code m = ''cash'') pms = Some cashMethod \<longrightarrow>
      (\<exists>e. obj_get (paymentSummary (dailySummary invs pms emps)) (PaymentMethod.name cashMethod)
              = Some e \<and>
           systemCash oc (paymentSummary (dailySummary invs pms emps)) pms
              = num_add (parseFloat oc) (or_zero (PaymentEntry.total e))))"
proof (intro conjI allI impI)
  assume "find (\<lambda>m. code m = ''cash'') pms = None"
  then show "systemCash oc (paymentSummary (dailySummary invs pms emps)) pms = Fin 0"
    by (simp add: systemCash_def)
next
  fix cashMethod
  assume found: "find (\<lambda>m. code m = ''cash'') pms = Some cashMethod"
  then have mem: "cashMethod \<in> set pms"
    by (simp add: find_Some_mem)
  with seeded_paymentSummary [of pms invs emps]
  obtain e where e: "obj_get (paymentSummary (dailySummary invs pms emps))
      (PaymentMethod.name cashMethod) = Some e"
    by (auto simp: seeded_def)
  from mem have "pms \<noteq> []" by auto
  with found e show "\<exists>e. obj_get (paymentSummary (dailySummary invs pms emps))
        (PaymentMethod.name cashMethod) = Some e \<and>
      systemCash oc (paymentSummary (dailySummary invs pms emps)) pms
        = num_add (parseFloat oc) (or_zero (PaymentEntry.total e))"
    by (simp add: systemCash_def)
qed

theorem systemCash_value_witness:
  "find (\<lambda>m. code m = ''cash'') [cash_method] = Some cash_method \<and>
   systemCash ''100.00'' (paymentSummary (dailySummary
      [example_invoice ''delivered'' True ''cash'' ''50.00''] [cash_method] [])) [cash_method]
     = Fin 150 \<and>
   find (\<lambda>m. code m = ''cash'') [card_method] = None \<and>
   systemCash ''100.00'' (paymentSummary (dailySummary
      [example_invoice ''delivered'' True ''cash'' ''50.00''] [card_method] [])) [card_method]
     = Fin 0"
  using systemCash_value [where pms = "[cash_method]" and oc = "''100.00''"
      and invs = "[example_invoice ''delivered'' True ''cash'' ''50.00'']" and emps = "[]"]
    systemCash_value [where pms = "[card_method]" and oc = "''100.00''"
      and invs = "[example_invoice ''delivered'' True ''cash'' ''50.00'']" and emps = "[]"]
  by (simp add: cash_method_def card_method_def dailySummary_def Let_def delivered_invoices_def
      example_invoice_def seed_summary_def zero_payment_def add_payment_def method_name_def
      obj_assign_def obj_get_def obj_mutate_def empty_object_def
      or_zero_def parseFloat_50 parseFloat_100 round_double_numeral)

text \<open>
  C1 as the specification states it fails where no cash method is configured: with an
  opening cash of 100.00 the system cash is 0, not 100, both for an empty list of
  payment methods and for a list without a method of code \<open>cash\<close>.
\<close>

theorem systemCash_counterexample:
  "parseFloat ''100.00'' = Fin 100 \<and>
   systemCash ''100.00'' (paymentSummary (dailySummary [] [] [])) [] = Fin 0 \<and>
   find (\<lambda>m. code m = ''cash'') [card_method] = None \<and>
   systemCash ''100.00'' (paymentSummary (dailySummary [] [card_method] [])) [card_method]
     = Fin 0"
  by (simp add: parseFloat_100 systemCash_def card_method_def)

section \<open>Malformed amounts\<close>

lemma num_add_NaN_right: "num_add x NaN = NaN"
  by (cases x) simp_all

lemma foldl_add_NaN:
  "foldl (\<lambda>sum iv. num_add sum (parseFloat (f iv))) NaN invs = NaN"
  by (induction invs) simp_all

lemma sum_field_NaN:
  assumes "iv \<in> set invs" and "parseFloat (f iv) = NaN"
  shows "sum_field f invs = NaN"
proof -
  have "foldl (\<lambda>sum iv. num_add sum (parseFloat (f iv))) acc invs = NaN" for acc
    using assms
  proof (induction invs arbitrary: acc)
    case Nil
    then show ?case by simp
  next
    case (Cons a invs)
    then show ?case
      by (cases "a = iv") (auto simp: num_add_NaN_right foldl_add_NaN)
  qed
  then show ?thesis
    by (simp add: sum_field_def)
qed

text \<open>
  C4, as the code has it. No amount makes the aggregation fail: a summary is returned for
  every input. A delivered invoice whose total, subtotal or tax parses to \<^verbatim>\<open>NaN\<close> turns
  the corresponding sum into \<^verbatim>\<open>NaN\<close> and leaves the counts as they are, and a counted
  cash that parses to \<^verbatim>\<open>NaN\<close> enters the variance as 0.
\<close>

theorem malformed_amounts:
  "(\<forall>iv \<in> set (delivered_invoices invs).
      (parseFloat (Invoice.total iv) = NaN \<longrightarrow> totalRevenue (dailySummary invs pms emps) = NaN) \<and>
      (parseFloat (subtotal iv) = NaN \<longrightarrow> totalSubtotal (dailySummary invs pms emps) = NaN) \<and>
      (parseFloat (tax iv) = NaN \<longrightarrow> totalTax (dailySummary invs pms emps) = NaN)) \<and>
   deliveredInvoices (dailySummary invs pms emps) = length (delivered_invoices invs) \<and>
   (parseFloat counted = NaN \<longrightarrow> variance counted system = num_sub (Fin 0) system)"
  by (auto simp: dailySummary_def Let_def sum_field_NaN variance_def or_zero_def)

theorem malformed_amounts_witness:
  "example_invoice ''delivered'' True ''cash'' ''abc''
     \<in> set (delivered_invoices [example_invoice ''delivered'' True ''cash'' ''abc'']) \<and>
   parseFloat (Invoice.total (example_invoice ''delivered'' True ''cash'' ''abc'')) = NaN \<and>
   totalRevenue (dailySummary [example_invoice ''delivered'' True ''cash'' ''abc'']
     [cash_method] []) = NaN \<and>
   parseFloat ''abc'' = NaN \<and>
   variance ''abc'' (Fin 150) = num_sub (Fin 0) (Fin 150)"
  using malformed_amounts [where invs = "[example_invoice ''delivered'' True ''cash'' ''abc'']"
      and pms = "[cash_method]" and emps = "[]" and counted = "''abc''" and system = "Fin 150"]
  by (simp add: delivered_invoices_def example_invoice_def parseFloat_abc)

text \<open>
  C4 as the specification states it fails: a delivered invoice with the total \<open>abc\<close> does
  not abort the aggregation, which returns a summary counting the invoice with a revenue
  of \<^verbatim>\<open>NaN\<close>, and the counted cash \<open>abc\<close> gives the variance that the counted cash \<open>0\<close>
  gives.
\<close>

theorem malformed_amounts_counterexample:
  "parseFloat ''abc'' = NaN \<and>
   totalRevenue (dailySummary [example_invoice ''delivered'' True ''cash'' ''abc'']
     [cash_method] []) = NaN \<and>
   deliveredInvoices (dailySummary [example_invoice ''delivered'' True ''cash'' ''abc'']
     [cash_method] []) = 1 \<and>
   variance ''abc'' (Fin 150) = variance ''0'' (Fin 150)"
  by (simp add: parseFloat_abc parseFloat_0 dailySummary_def Let_def delivered_invoices_def
      example_invoice_def sum_field_def variance_def or_zero_def)

section \<open>The date filter\<close>

lemma toISODate_jan_1: "toISODate 1704074400000 = ''2024-01-01''"
  by code_simp

lemma toISODate_jan_2: "toISODate 1704160800000 = ''2024-01-02''"
  by code_simp

lemma toISODate_jan_1_later: "toISODate 1704074400001 = ''2024-01-01''"
  by code_simp

lemma local_date_dec_31: "local_date (- 240) 1704074400000 = ''2023-12-31''"
  by code_simp

lemma local_date_jan_1: "local_date (- 240) 1704160800000 = ''2024-01-01''"
  by code_simp

lemma filter_by_date_valid:
  "\<forall>iv \<in> set data. date iv \<noteq> InvalidDate \<Longrightarrow>
     filter_by_date selectedDate data = Inr (filter (on_utc_date selectedDate) data)"
  by (induction data)
    (auto simp: invoice_on_date_def on_utc_date_def split: date_value.splits)

lemma filter_by_date_invalid:
  "\<exists>iv \<in> set data. date iv = InvalidDate \<Longrightarrow> filter_by_date selectedDate data = Inl RangeError"
proof (induction data)
  case Nil
  then show ?case by simp
next
  case (Cons a data)
  then show ?case
    by (cases "date a"; cases "\<exists>iv \<in> set data. date iv = InvalidDate")
      (auto simp: invoice_on_date_def split: sum.splits)
qed

text \<open>
  C2, as the code has it. The invoices handed to the aggregator are exactly the fetched
  invoices that have a date whose calendar date in UTC is the selected date, in the order
  fetched; the date string depends on the UTC day of the time value only. An invoice
  without a date is dropped, and an invalid date makes the query fail.
\<close>

theorem filter_by_utc_date:
  "((\<forall>iv \<in> set data. date iv \<noteq> InvalidDate) \<longrightarrow>
      filter_by_date selectedDate data = Inr (filter (on_utc_date selectedDate) data)) \<and>
   ((\<exists>iv \<in> set data. date iv = InvalidDate) \<longrightarrow>
      filter_by_date selectedDate data = Inl RangeError) \<and>
   (t div msPerDay = t' div msPerDay \<longrightarrow> toISODate t = toISODate t')"
  using filter_by_date_valid [of data selectedDate] filter_by_date_invalid [of data selectedDate]
  by (auto simp: toISODate_def)

theorem filter_by_utc_date_witness:
  "filter_by_date ''2024-01-01'' [dated_invoice 1704074400000, dated_invoice 1704160800000]
     = Inr [dated_invoice 1704074400000] \<and>
   filter_by_date ''2024-01-01''
     [dated_invoice 1704074400000, (dated_invoice 0)\<lparr>date := InvalidDate\<rparr>] = Inl RangeError \<and>
   toISODate 1704074400000 = toISODate 1704074400001"
  using filter_by_utc_date [where data = "[dated_invoice 1704074400000, dated_invoice 1704160800000]"
      and selectedDate = "''2024-01-01''" and t = 1704074400000 and t' = 1704074400001]
    filter_by_utc_date [where data = "[dated_invoice 1704074400000,
        (dated_invoice 0)\<lparr>date := InvalidDate\<rparr>]"
      and selectedDate = "''2024-01-01''" and t = 0 and t' = 0]
  by (simp add: dated_invoice_def example_invoice_def on_utc_date_def msPerDay_def
      invoice_on_date_def toISODate_jan_1 toISODate_jan_1_later toISODate_jan_2)

text \<open>
  C2 as the specification states it fails: in a zone four hours behind UTC, an invoice
  of 22:00 on 2024-01-01 local time (02:00 UTC the next day) is left out of the invoices
  for 2024-01-01, and one of 22:00 on 2023-12-31 local time is put among them.
\<close>

theorem local_date_counterexample:
  "local_date (- 240) 1704160800000 = ''2024-01-01'' \<and>
   filter_by_date ''2024-01-01'' [dated_invoice 1704160800000] = Inr [] \<and>
   local_date (- 240) 1704074400000 = ''2023-12-31'' \<and>
   filter_by_date ''2024-01-01'' [dated_invoice 1704074400000]
     = Inr [dated_invoice 1704074400000]"
  by (simp add: local_date_dec_31 local_date_jan_1 toISODate_jan_1 toISODate_jan_2
      dated_invoice_def invoice_on_date_def)

section \<open>Sums of whole amounts\<close>

lemma abs_sum_nonneg: "0 \<le> abs_sum xs"
  unfolding abs_sum_def by (rule sum_list_nonneg) auto

lemma amounts_Cons:
  "amounts field (iv # invs) = parseFloat (field iv) # amounts field invs"
  by (simp add: amounts_def)

lemma abs_sum_Cons: "abs_sum (x # xs) = \<bar>int_of x\<bar> + abs_sum xs"
  by (simp add: abs_sum_def)

lemma exact_sum_Cons: "exact_sum (x # xs) = int_of x + exact_sum xs"
  by (simp add: exact_sum_def)

lemma whole_numbers_alt:
  "whole_numbers xs \<longleftrightarrow> (\<forall>x \<in> set xs. int_amount x \<noteq> None) \<and> abs_sum xs \<le> 2 ^ 53"
  by (simp add: whole_numbers_def abs_sum_def)

lemma obj_get_add_payment_other:
  "method_name pms iv \<noteq> k \<Longrightarrow> obj_get (add_payment pms ps iv) k = obj_get ps k"
  by (simp add: add_payment_def Let_def obj_get_mutate split: option.splits)

lemma payment_bucket_fold:
  assumes "obj_get ps k = Some e"
    and "PaymentEntry.total e = Fin (of_int z)"
    and "\<forall>x \<in> set (amounts Invoice.total (payment_bucket pms k invs)). int_amount x \<noteq> None"
    and "\<bar>z\<bar> + abs_sum (amounts Invoice.total (payment_bucket pms k invs)) \<le> 2 ^ 53"
  shows "obj_get (foldl (add_payment pms) ps invs) k =
     Some \<lparr>quantity = quantity e + length (payment_bucket pms k invs),
           total = Fin (of_int (z + exact_sum (amounts Invoice.total (payment_bucket pms k invs))))\<rparr>"
  using assms
proof (induction invs arbitrary: ps e z)
  case Nil
  then show ?case
    by (simp add: payment_bucket_def amounts_def exact_sum_def)
next
  case (Cons iv invs)
  show ?case
  proof (cases "method_name pms iv = k")
    case True
    then have bucket: "payment_bucket pms k (iv # invs) = iv # payment_bucket pms k invs"
      by (simp add: payment_bucket_def)
    from Cons.prems(3) bucket obtain a where a: "int_amount (parseFloat (Invoice.total iv)) = Some a"
      by (auto simp: amounts_Cons)
    then have ia: "int_of (parseFloat (Invoice.total iv)) = a"
      by (simp add: int_of_def)
    from Cons.prems(4) bucket ia abs_sum_nonneg [of "amounts Invoice.total (payment_bucket pms k invs)"]
    have b1: "\<bar>z + a\<bar> \<le> 2 ^ 53"
      and b2: "\<bar>z + a\<bar> + abs_sum (amounts Invoice.total (payment_bucket pms k invs)) \<le> 2 ^ 53"
      by (simp_all add: amounts_Cons abs_sum_Cons)
    define e' where "e' = \<lparr>quantity = quantity e + 1, total = Fin (of_int (z + a))\<rparr>"
    from Cons.prems(1) True have "obj_get ps (method_name pms iv) = Some e"
      by simp
    from obj_get_add_payment [OF this, of k] num_add_amount [OF a b1] Cons.prems(2) True
    have m: "obj_get (add_payment pms ps iv) k = Some e'"
      by (simp add: e'_def)
    have rest: "\<forall>x \<in> set (amounts Invoice.total (payment_bucket pms k invs)). int_amount x \<noteq> None"
      using Cons.prems(3) bucket by (simp add: amounts_Cons)
    from Cons.IH [OF m _ rest, where z = "z + a"] b2
    show ?thesis
      by (simp add: bucket e'_def amounts_Cons exact_sum_Cons ia add.assoc)
  next
    case False
    then have bucket: "payment_bucket pms k (iv # invs) = payment_bucket pms k invs"
      by (simp add: payment_bucket_def)
    from False Cons.prems(1) have m: "obj_get (add_payment pms ps iv) k = Some e"
      by (simp add: obj_get_add_payment_other)
    from Cons.IH [OF m Cons.prems(2)] Cons.prems(3,4) bucket
    show ?thesis
      by simp
  qed
qed

lemma payment_entry_exact:
  assumes "k \<in> insert ''Pendiente'' (PaymentMethod.name ` set pms)"
    and "whole_numbers (amounts Invoice.total (payment_bucket pms k (delivered_invoices invs)))"
  shows "obj_get (paymentSummary (dailySummary invs pms emps)) k =
     Some \<lparr>quantity = length (payment_bucket pms k (delivered_invoices invs)),
           total = Fin (of_int (exact_sum
             (amounts Invoice.total (payment_bucket pms k (delivered_invoices invs)))))\<rparr>"
proof -
  from assms(1) have seed: "obj_get (seed_summary pms) k = Some zero_payment"
    by (simp add: obj_get_seed_summary)
  have "obj_get (foldl (add_payment pms) (seed_summary pms) (delivered_invoices invs)) k =
     Some \<lparr>quantity = quantity zero_payment + length (payment_bucket pms k (delivered_invoices invs)),
           total = Fin (of_int (0 + exact_sum
             (amounts Invoice.total (payment_bucket pms k (delivered_invoices invs)))))\<rparr>"
    using assms(2)
    by (intro payment_bucket_fold seed) (simp_all add: whole_numbers_alt zero_payment_def)
  then show ?thesis
    by (simp add: zero_payment_def dailySummary_def Let_def)
qed

lemma map_of_add_sale_other:
  "employee_name emps iv \<noteq> k \<Longrightarrow> map_of (add_sale emps es iv) k = map_of es k"
  by (simp add: add_sale_def Let_def update_conv' split: option.splits)

lemma map_of_add_sale_present:
  assumes "map_of es (employee_name emps iv) = Some e"
  shows "map_of (add_sale emps es iv) (employee_name emps iv) =
     Some \<lparr>sales = sales e + 1,
           total = num_add (EmployeeEntry.total e) (parseFloat (Invoice.total iv))\<rparr>"
  using assms by (simp add: add_sale_def Let_def update_conv')

lemma map_of_add_sale_new:
  assumes "map_of es (employee_name emps iv) = None"
    and "employee_name emps iv \<notin> set object_prototype_names"
  shows "map_of (add_sale emps es iv) (employee_name emps iv) =
     Some \<lparr>sales = 1, total = num_add (Fin 0) (parseFloat (Invoice.total iv))\<rparr>"
  using assms by (simp add: add_sale_def Let_def update_conv')

lemma employee_bucket_fold_some:
  assumes "map_of es k = Some e"
    and "EmployeeEntry.total e = Fin (of_int z)"
    and "\<forall>x \<in> set (amounts Invoice.total (employee_bucket emps k invs)). int_amount x \<noteq> None"
    and "\<bar>z\<bar> + abs_sum (amounts Invoice.total (employee_bucket emps k invs)) \<le> 2 ^ 53"
  shows "map_of (foldl (add_sale emps) es invs) k =
     Some \<lparr>sales = sales e + length (employee_bucket emps k invs),
           total = Fin (of_int (z + exact_sum (amounts Invoice.total (employee_bucket emps k invs))))\<rparr>"
  using assms
proof (induction invs arbitrary: es e z)
  case Nil
  then show ?case
    by (simp add: employee_bucket_def amounts_def exact_sum_def)
next
  case (Cons iv invs)
  show ?case
  proof (cases "employee_name emps iv = k")
    case True
    then have bucket: "employee_bucket emps k (iv # invs) = iv # employee_bucket emps k invs"
      by (simp add: employee_bucket_def)
    from Cons.prems(3) bucket obtain a where a: "int_amount (parseFloat (Invoice.total iv)) = Some a"
      by (auto simp: amounts_Cons)
    then have ia: "int_of (parseFloat (Invoice.total iv)) = a"
      by (simp add: int_of_def)
    from Cons.prems(4) bucket ia abs_sum_nonneg [of "amounts Invoice.total (employee_bucket emps k invs)"]
    have b1: "\<bar>z + a\<bar> \<le> 2 ^ 53"
      and b2: "\<bar>z + a\<bar> + abs_sum (amounts Invoice.total (employee_bucket emps k invs)) \<le> 2 ^ 53"
      by (simp_all add: amounts_Cons abs_sum_Cons)
    define e' where "e' = \<lparr>sales = sales e + 1, total = Fin (of_int (z + a))\<rparr>"
    from Cons.prems(1) True have "map_of es (employee_name emps iv) = Some e"
      by simp
    from map_of_add_sale_present [OF this] num_add_amount [OF a b1] Cons.prems(2) True
    have m: "map_of (add_sale emps es iv) k = Some e'"
      by (simp add: e'_def)
    have rest: "\<forall>x \<in> set (amounts Invoice.total (employee_bucket emps k invs)). int_amount x \<noteq> None"
      using Cons.prems(3) bucket by (simp add: amounts_Cons)
    from Cons.IH [OF m _ rest, where z = "z + a"] b2
    show ?thesis
      by (simp add: bucket e'_def amounts_Cons exact_sum_Cons ia add.assoc)
  next
    case False
    then have bucket: "employee_bucket emps k (iv # invs) = employee_bucket emps k invs"
      by (simp add: employee_bucket_def)
    from False Cons.prems(1) have m: "map_of (add_sale emps es iv) k = Some e"
      by (simp add: map_of_add_sale_other)
    from Cons.IH [OF m Cons.prems(2)] Cons.prems(3,4) bucket
    show ?thesis
      by simp
  qed
qed

lemma employee_bucket_fold_none:
  assumes "map_of es k = None"
    and "k \<notin> set object_prototype_names"
    and "employee_bucket emps k invs \<noteq> []"
    and "\<forall>x \<in> set (amounts Invoice.total (employee_bucket emps k invs)). int_amount x \<noteq> None"
    and "abs_sum (amounts Invoice.total (employee_bucket emps k invs)) \<le> 2 ^ 53"
  shows "map_of (foldl (add_sale emps) es invs) k =
     Some \<lparr>sales = length (employee_bucket emps k invs),
           total = Fin (of_int (exact_sum (amounts Invoice.total (employee_bucket emps k invs))))\<rparr>"
  using assms
proof (induction invs arbitrary: es)
  case Nil
  then show ?case by (simp add: employee_bucket_def)
next
  case (Cons iv invs)
  show ?case
  proof (cases "employee_name emps iv = k")
    case True
    then have bucket: "employee_bucket emps k (iv # invs) = iv # employee_bucket emps k invs"
      by (simp add: employee_bucket_def)
    from Cons.prems(4) bucket obtain a where a: "int_amount (parseFloat (Invoice.total iv)) = Some a"
      by (auto simp: amounts_Cons)
    then have ia: "int_of (parseFloat (Invoice.total iv)) = a"
      by (simp add: int_of_def)
    from Cons.prems(5) bucket ia abs_sum_nonneg [of "amounts Invoice.total (employee_bucket emps k invs)"]
    have b1: "\<bar>0 + a\<bar> \<le> 2 ^ 53"
      and b2: "\<bar>a\<bar> + abs_sum (amounts Invoice.total (employee_bucket emps k invs)) \<le> 2 ^ 53"
      by (simp_all add: amounts_Cons abs_sum_Cons)
    define e' where "e' = \<lparr>sales = 1, total = Fin (of_int a)\<rparr>"
    from Cons.prems(1,2) True have "map_of es (employee_name emps iv) = None"
      and "employee_name emps iv \<notin> set object_prototype_names"
      by simp_all
    from map_of_add_sale_new [OF this] num_add_amount [OF a b1] True
    have m: "map_of (add_sale emps es iv) k = Some e'"
      by (simp add: e'_def)
    have rest: "\<forall>x \<in> set (amounts Invoice.total (employee_bucket emps k invs)). int_amount x \<noteq> None"
      using Cons.prems(4) bucket by (simp add: amounts_Cons)
    from employee_bucket_fold_some [OF m _ rest, where z = a] b2
    show ?thesis
      by (simp add: bucket e'_def amounts_Cons exact_sum_Cons ia)
  next
    case False
    then have bucket: "employee_bucket emps k (iv # invs) = employee_bucket emps k invs"
      by (simp add: employee_bucket_def)
    from False Cons.prems(1) have m: "map_of (add_sale emps es iv) k = None"
      by (simp add: map_of_add_sale_other)
    from Cons.IH [OF m Cons.prems(2)] Cons.prems(3,4,5) bucket
    show ?thesis
      by simp
  qed
qed

lemma employee_entry_exact:
  assumes "k \<notin> set object_prototype_names"
    and "employee_bucket emps k (delivered_invoices invs) \<noteq> []"
    and "whole_numbers (amounts Invoice.total (employee_bucket emps k (delivered_invoices invs)))"
  shows "map_of (employeeStats (dailySummary invs pms emps)) k =
     Some \<lparr>sales = length (employee_bucket emps k (delivered_invoices invs)),
           total = Fin (of_int (exact_sum
             (amounts Invoice.total (employee_bucket emps k (delivered_invoices invs)))))\<rparr>"
  using employee_bucket_fold_none [where es = "[]" and k = k and emps = emps
      and invs = "delivered_invoices invs"] assms
  by (simp add: whole_numbers_alt dailySummary_def Let_def)

lemma or_zero_whole: "int_amount x = Some c \<Longrightarrow> or_zero x = Fin (of_int c)"
  by (erule int_amount_cases) (auto simp: or_zero_def)

lemma systemCash_exact:
  assumes "find (\<lambda>m. code m = ''cash'') pms = Some cashMethod"
    and "obj_get summary (PaymentMethod.name cashMethod) = Some e"
    and "int_amount (parseFloat oc) = Some opening_amount"
    and "int_amount (PaymentEntry.total e) = Some cash_amount"
    and "\<bar>opening_amount + cash_amount\<bar> \<le> 2 ^ 53"
  shows "systemCash oc summary pms = Fin (of_int (opening_amount + cash_amount))"
proof -
  from assms(1) have "pms \<noteq> []"
    by (auto simp: find_Some_iff)
  moreover have "num_add (parseFloat oc) (Fin (of_int cash_amount))
      = Fin (of_int (opening_amount + cash_amount))"
    using assms(3)
  proof (cases rule: int_amount_cases)
    case 1
    with num_add_int [OF assms(5)] show ?thesis by simp
  next
    case 2
    then show ?thesis by simp
  qed
  ultimately show ?thesis
    using assms(1,2) or_zero_whole [OF assms(4)] by (simp add: systemCash_def)
qed

lemma variance_exact:
  assumes "int_amount (parseFloat counted) = Some c"
    and "\<bar>c - s\<bar> \<le> 2 ^ 53"
  shows "variance counted (Fin (of_int s)) = Fin (of_int (c - s))"
proof (cases "s = 0")
  case True
  with or_zero_whole [OF assms(1)] show ?thesis
    by (simp add: variance_def num_sub_def)
next
  case False
  from num_add_int [of c "- s"] assms(2)
  have "num_add (Fin (of_int c)) (Fin (of_int (- s))) = Fin (of_int (c - s))"
    by simp
  with False or_zero_whole [OF assms(1)] show ?thesis
    by (simp add: variance_def num_sub_def)
qed

text \<open>
  An employee whose name objects inherit from \<^verbatim>\<open>Object.prototype\<close> gets no entry: the
  sale of an employee named \<^verbatim>\<open>constructor\<close> leaves the statistics empty.
\<close>

lemma inherited_employee_name:
  "employee_bucket [constructor_employee] ''constructor''
     (delivered_invoices [example_invoice ''delivered'' True ''cash'' ''25.00''])
     = [example_invoice ''delivered'' True ''cash'' ''25.00''] \<and>
   employeeStats (dailySummary [example_invoice ''delivered'' True ''cash'' ''25.00'']
     [cash_method] [constructor_employee]) = []"
  by code_simp

text \<open>
  C3, as the code has it. The sums are sums of doubles. They are exact on whole amounts:
  when the amounts that enter a sum are whole numbers whose absolute values add up to at
  most \<open>2^53\<close>, then \<open>totalRevenue\<close>, \<open>totalSubtotal\<close> and \<open>totalTax\<close> are the exact sums
  of the totals, subtotals and taxes of the delivered invoices; the entry read from the
  payment summary under the name of a payment method or under \<^verbatim>\<open>Pendiente\<close>, and the
  entry of an employee whose name is not one that objects inherit from
  \<^verbatim>\<open>Object.prototype\<close>, hold the number and the exact sum of the totals of the delivered
  invoices counted under them; and the system cash and the variance are the exact sum and
  the exact difference.
\<close>

theorem sums_exact_on_whole_amounts:
  "(whole_numbers (amounts Invoice.total (delivered_invoices invs)) \<longrightarrow>
      totalRevenue (dailySummary invs pms emps)
        = Fin (of_int (exact_sum (amounts Invoice.total (delivered_invoices invs))))) \<and>
   (whole_numbers (amounts subtotal (delivered_invoices invs)) \<longrightarrow>
      totalSubtotal (dailySummary invs pms emps)
        = Fin (of_int (exact_sum (amounts subtotal (delivered_invoices invs))))) \<and>
   (whole_numbers (amounts tax (delivered_invoices invs)) \<longrightarrow>
      totalTax (dailySummary invs pms emps)
        = Fin (of_int (exact_sum (amounts tax (delivered_invoices invs))))) \<and>
   (k \<in> insert ''Pendiente'' (PaymentMethod.name ` set pms) \<and>
    whole_numbers (amounts Invoice.total (payment_bucket pms k (delivered_invoices invs))) \<longrightarrow>
      obj_get (paymentSummary (dailySummary invs pms emps)) k =
        Some \<lparr>quantity = length (payment_bucket pms k (delivered_invoices invs)),
              total = Fin (of_int (exact_sum
                (amounts Invoice.total (payment_bucket pms k (delivered_invoices invs)))))\<rparr>) \<and>
   (k' \<notin> set object_prototype_names \<and>
    employee_bucket emps k' (delivered_invoices invs) \<noteq> [] \<and>
    whole_numbers (amounts Invoice.total (employee_bucket emps k' (delivered_invoices invs))) \<longrightarrow>
      map_of (employeeStats (dailySummary invs pms emps)) k' =
        Some \<lparr>sales = length (employee_bucket emps k' (delivered_invoices invs)),
              total = Fin (of_int (exact_sum
                (amounts Invoice.total (employee_bucket emps k' (delivered_invoices invs)))))\<rparr>) \<and>
   (find (\<lambda>m. code m = ''cash'') pms = Some cashMethod \<and>
    obj_get (paymentSummary (dailySummary invs pms emps)) (PaymentMethod.name cashMethod) = Some e \<and>
    int_amount (parseFloat oc) = Some opening_amount \<and>
    int_amount (PaymentEntry.total e) = Some cash_amount \<and>
    \<bar>opening_amount + cash_amount\<bar> \<le> 2 ^ 53 \<longrightarrow>
      systemCash oc (paymentSummary (dailySummary invs pms emps)) pms
        = Fin (of_int (opening_amount + cash_amount))) \<and>
   (int_amount (parseFloat counted) = Some c \<and> \<bar>c - s\<bar> \<le> 2 ^ 53 \<longrightarrow>
      variance counted (Fin (of_int s)) = Fin (of_int (c - s)))"
proof (intro conjI impI)
  show "totalRevenue (dailySummary invs pms emps)
      = Fin (of_int (exact_sum (amounts Invoice.total (delivered_invoices invs))))"
    if "whole_numbers (amounts Invoice.total (delivered_invoices invs))"
    using sum_field_exact [OF that] by (simp add: dailySummary_def Let_def)
  show "totalSubtotal (dailySummary invs pms emps)
      = Fin (of_int (exact_sum (amounts subtotal (delivered_invoices invs))))"
    if "whole_numbers (amounts subtotal (delivered_invoices invs))"
    using sum_field_exact [OF that] by (simp add: dailySummary_def Let_def)
  show "totalTax (dailySummary invs pms emps)
      = Fin (of_int (exact_sum (amounts tax (delivered_invoices invs))))"
    if "whole_numbers (amounts tax (delivered_invoices invs))"
    using sum_field_exact [OF that] by (simp add: dailySummary_def Let_def)
  show "obj_get (paymentSummary (dailySummary invs pms emps)) k =
        Some \<lparr>quantity = length (payment_bucket pms k (delivered_invoices invs)),
              total = Fin (of_int (exact_sum
                (amounts Invoice.total (payment_bucket pms k (delivered_invoices invs)))))\<rparr>"
    if "k \<in> insert ''Pendiente'' (PaymentMethod.name ` set pms) \<and>
      whole_numbers (amounts Invoice.total (payment_bucket pms k (delivered_invoices invs)))"
    using that by (simp add: payment_entry_exact)
  show "map_of (employeeStats (dailySummary invs pms emps)) k' =
        Some \<lparr>sales = length (employee_bucket emps k' (delivered_invoices invs)),
              total = Fin (of_int (exact_sum
                (amounts Invoice.total (employee_bucket emps k' (delivered_invoices invs)))))\<rparr>"
    if "k' \<notin> set object_prototype_names \<and>
      employee_bucket emps k' (delivered_invoices invs) \<noteq> [] \<and>
      whole_numbers (amounts Invoice.total (employee_bucket emps k' (delivered_invoices invs)))"
    using that by (simp add: employee_entry_exact)
  show "systemCash oc (paymentSummary (dailySummary invs pms emps)) pms
        = Fin (of_int (opening_amount + cash_amount))"
    if "find (\<lambda>m. code m = ''cash'') pms = Some cashMethod \<and>
      obj_get (paymentSummary (dailySummary invs pms emps)) (PaymentMethod.name cashMethod) = Some e \<and>
      int_amount (parseFloat oc) = Some opening_amount \<and>
      int_amount (PaymentEntry.total e) = Some cash_amount \<and>
      \<bar>opening_amount + cash_amount\<bar> \<le> 2 ^ 53"
    using that by (elim conjE) (rule systemCash_exact; assumption)
  show "variance counted (Fin (of_int s)) = Fin (of_int (c - s))"
    if "int_amount (parseFloat counted) = Some c \<and> \<bar>c - s\<bar> \<le> 2 ^ 53"
    using that by (elim conjE) (rule variance_exact; assumption)
qed

theorem sums_exact_on_whole_amounts_witness:
  "whole_numbers (amounts Invoice.total (delivered_invoices whole_invoices)) \<and>
   totalRevenue (dailySummary whole_invoices [cash_method, card_method] [ana]) = Fin 40 \<and>
   whole_numbers (amounts subtotal (delivered_invoices whole_invoices)) \<and>
   totalSubtotal (dailySummary whole_invoices [cash_method, card_method] [ana]) = Fin 40 \<and>
   whole_numbers (amounts tax (delivered_invoices whole_invoices)) \<and>
   totalTax (dailySummary whole_invoices [cash_method, card_method] [ana]) = Fin 0 \<and>
   obj_get (paymentSummary (dailySummary whole_invoices [cash_method, card_method] [ana]))
     ''Efectivo'' = Some \<lparr>quantity = 1, total = Fin 25\<rparr> \<and>
   ''Ana'' \<notin> set object_prototype_names \<and>
   map_of (employeeStats (dailySummary whole_invoices [cash_method, card_method] [ana]))
     ''Ana'' = Some \<lparr>sales = 3, total = Fin 40\<rparr> \<and>
   systemCash ''100.00'' (paymentSummary
     (dailySummary whole_invoices [cash_method, card_method] [ana])) [cash_method, card_method]
     = Fin 125 \<and>
   variance ''100.00'' (Fin 125) = Fin (- 25)"
proof -
  let ?d = "delivered_invoices whole_invoices"
  let ?pms = "[cash_method, card_method]"
  have names: "PaymentMethod.name cash_method = ''Efectivo''"
    "PaymentMethod.name card_method = ''Tarjeta''"
    by (simp_all add: cash_method_def card_method_def)
  have total: "whole_numbers (amounts Invoice.total ?d)"
    "exact_sum (amounts Invoice.total ?d) = 40"
    by code_simp+
  have subtotal: "whole_numbers (amounts subtotal ?d)" "exact_sum (amounts subtotal ?d) = 40"
    by code_simp+
  have tax: "whole_numbers (amounts tax ?d)" "exact_sum (amounts tax ?d) = 0"
    by code_simp+
  have cash: "''Efectivo'' \<in> insert ''Pendiente'' (PaymentMethod.name ` set ?pms)"
    "whole_numbers (amounts Invoice.total (payment_bucket ?pms ''Efectivo'' ?d))"
    "length (payment_bucket ?pms ''Efectivo'' ?d) = 1"
    "exact_sum (amounts Invoice.total (payment_bucket ?pms ''Efectivo'' ?d)) = 25"
    by code_simp+
  have emp: "''Ana'' \<notin> set object_prototype_names"
    "employee_bucket [ana] ''Ana'' ?d \<noteq> []"
    "whole_numbers (amounts Invoice.total (employee_bucket [ana] ''Ana'' ?d))"
    "length (employee_bucket [ana] ''Ana'' ?d) = 3"
    "exact_sum (amounts Invoice.total (employee_bucket [ana] ''Ana'' ?d)) = 40"
    by code_simp+
  have sys: "find (\<lambda>m. code m = ''cash'') ?pms = Some cash_method"
    "obj_get (paymentSummary (dailySummary whole_invoices ?pms [ana]))
       (PaymentMethod.name cash_method) = Some \<lparr>quantity = 1, total = Fin 25\<rparr>"
    "int_amount (parseFloat ''100.00'') = Some 100"
    "int_amount (PaymentEntry.total \<lparr>quantity = 1, total = Fin 25\<rparr>) = Some 25"
    by code_simp+
  from sums_exact_on_whole_amounts [where invs = whole_invoices
      and pms = ?pms and emps = "[ana]" and k = "''Efectivo''"
      and k' = "''Ana''" and cashMethod = cash_method
      and e = "\<lparr>quantity = 1, total = Fin 25\<rparr>" and oc = "''100.00''"
      and opening_amount = 100 and cash_amount = 25 and counted = "''100.00''"
      and c = 100 and s = 125]
    total subtotal tax cash emp sys
  show ?thesis
    by (simp add: names)
qed

lemma cent_revenue:
  "totalRevenue (dailySummary cent_invoices [cash_method] [])
     = Fin (1351079888211149 / 4503599627370496)"
  by code_simp

lemma cent_values:
  "unsigned_literal ''0.10'' = Some (1 / 10) \<and> unsigned_literal ''0.20'' = Some (1 / 5)"
  by code_simp

lemma parseFloat_030: "parseFloat ''0.30'' = Fin (5404319552844595 / 18014398509481984)"
  by code_simp

lemma large_revenue:
  "totalRevenue (dailySummary large_invoices [cash_method] []) = Fin 9007199254740992"
  by code_simp

lemma large_values:
  "unsigned_literal ''9007199254740992.00'' = Some 9007199254740992 \<and>
   unsigned_literal ''1.00'' = Some 1"
  by code_simp

text \<open>
  C3 as the specification states it fails. The decimals 0.10 and 0.20 add up to 0.3, but
  the revenue of two delivered invoices with these totals is the double
  0.30000000000000004, which is neither 0.3 nor the double nearest to 0.3; and the revenue
  of two delivered invoices of 9007199254740992.00 and 1.00 is 9007199254740992, one unit
  short.
\<close>

theorem exact_decimal_counterexample:
  "unsigned_literal ''0.10'' = Some (1 / 10) \<and> unsigned_literal ''0.20'' = Some (1 / 5) \<and>
   totalRevenue (dailySummary cent_invoices [cash_method] []) \<noteq> Fin (1 / 10 + 1 / 5) \<and>
   totalRevenue (dailySummary cent_invoices [cash_method] []) \<noteq> parseFloat ''0.30'' \<and>
   unsigned_literal ''9007199254740992.00'' = Some 9007199254740992 \<and>
   unsigned_literal ''1.00'' = Some 1 \<and>
   totalRevenue (dailySummary large_invoices [cash_method] []) \<noteq> Fin (9007199254740992 + 1)"
  by (simp add: cent_revenue cent_values large_revenue large_values parseFloat_030)

section \<open>Duplicate closures\<close>



end
